theory Spec2Isabelle
  imports Complex_Main
begin

section \<open>JavaScript numbers and attribute parsing\<close>

text \<open>
  Slide indices are JavaScript numbers. Nothing in the program makes them integers:
  \<open>goToSlide\<close> stores whatever number passes its two comparisons, so they are
  modelled as reals, with \<open>NaN\<close> kept as a value of its own: \<open>%\<close> by zero
  produces it, and every comparison with it is false. Sums, differences and remainders
  are those of the reals, which are the program's whenever the result is a number of the
  machine, as it is for integers below \<open>2^53\<close> and for the halves between them that
  occur below; the rounding of other fractions is not modelled, and neither are the
  infinities (which both guards of \<open>goToSlide\<close> refuse like any number beyond the
  bounds) nor the sign of zero (which no comparison or remainder here tells apart).
  Rounding to 53 bits is modelled where a number is read from text.
\<close>

datatype jsnum = Num real | NaN

text \<open>A number that is an integer, as array indexing requires of a slide index.\<close>

fun isInteger :: "jsnum \<Rightarrow> bool" where
  "isInteger (Num x) = (of_int \<lfloor>x\<rfloor> = x)"
| "isInteger NaN = False"

text \<open>Truncation toward zero, the integer quotient that \<open>%\<close> takes away.\<close>

definition js_trunc :: "real \<Rightarrow> int" where
  "js_trunc x = (if 0 \<le> x then \<lfloor>x\<rfloor> else \<lceil>x\<rceil>)"

text \<open>\<open>a % b\<close>: the remainder takes the sign of the dividend; \<open>NaN\<close> when \<open>b\<close> is zero.\<close>

fun js_rem :: "jsnum \<Rightarrow> jsnum \<Rightarrow> jsnum" where
  "js_rem (Num a) (Num b) = (if b = 0 then NaN else Num (a - b * of_int (js_trunc (a / b))))"
| "js_rem _ _ = NaN"

fun js_plus :: "jsnum \<Rightarrow> jsnum \<Rightarrow> jsnum" where
  "js_plus (Num a) (Num b) = Num (a + b)"
| "js_plus _ _ = NaN"

fun js_minus :: "jsnum \<Rightarrow> jsnum \<Rightarrow> jsnum" where
  "js_minus (Num a) (Num b) = Num (a - b)"
| "js_minus _ _ = NaN"

fun js_less :: "jsnum \<Rightarrow> jsnum \<Rightarrow> bool" where
  "js_less (Num a) (Num b) = (a < b)"
| "js_less _ _ = False"

fun js_le :: "jsnum \<Rightarrow> jsnum \<Rightarrow> bool" where
  "js_le (Num a) (Num b) = (a \<le> b)"
| "js_le _ _ = False"

text \<open>\<open>a === b\<close> on numbers: \<open>NaN\<close> equals nothing.\<close>

fun js_strict_eq :: "jsnum \<Rightarrow> jsnum \<Rightarrow> bool" where
  "js_strict_eq (Num a) (Num b) = (a = b)"
| "js_strict_eq _ _ = False"

text \<open>Truthiness of a number: \<open>0\<close> and \<open>NaN\<close> are falsy.\<close>

fun js_truthy :: "jsnum \<Rightarrow> bool" where
  "js_truthy (Num a) = (a \<noteq> 0)"
| "js_truthy NaN = False"

text \<open>
  What \<open>parseInt\<close> returns is an integer or \<open>NaN\<close>, here \<open>None\<close>.
  \<open>x || d\<close> for such an \<open>x\<close> and a non-zero default \<open>d\<close>; \<open>numberOf\<close> reads
  it as a number again.
\<close>

definition js_or :: "int option \<Rightarrow> int \<Rightarrow> int" where
  "js_or x d = (case x of Some a \<Rightarrow> (if a = 0 then d else a) | None \<Rightarrow> d)"

definition numberOf :: "int option \<Rightarrow> jsnum" where
  "numberOf x = (case x of Some a \<Rightarrow> Num (of_int a) | None \<Rightarrow> NaN)"

text \<open>
  The white space that \<open>parseInt\<close> skips, each character in its UTF-8 encoding (an
  attribute value is taken as the bytes of its UTF-8 form): tab, line feed, vertical tab,
  form feed, carriage return, space, U+00A0, U+1680, U+2000 to U+200A, U+2028, U+2029,
  U+202F, U+205F, U+3000 and U+FEFF.
\<close>

definition whiteSpace :: "string list" where
  "whiteSpace =
     [[CHR 0x09], [CHR 0x0A], [CHR 0x0B], [CHR 0x0C], [CHR 0x0D], [CHR 0x20],
      [CHR 0xC2, CHR 0xA0], [CHR 0xE1, CHR 0x9A, CHR 0x80],
      [CHR 0xE2, CHR 0x80, CHR 0x80], [CHR 0xE2, CHR 0x80, CHR 0x81],
      [CHR 0xE2, CHR 0x80, CHR 0x82], [CHR 0xE2, CHR 0x80, CHR 0x83],
      [CHR 0xE2, CHR 0x80, CHR 0x84], [CHR 0xE2, CHR 0x80, CHR 0x85],
      [CHR 0xE2, CHR 0x80, CHR 0x86], [CHR 0xE2, CHR 0x80, CHR 0x87],
      [CHR 0xE2, CHR 0x80, CHR 0x88], [CHR 0xE2, CHR 0x80, CHR 0x89],
      [CHR 0xE2, CHR 0x80, CHR 0x8A], [CHR 0xE2, CHR 0x80, CHR 0xA8],
      [CHR 0xE2, CHR 0x80, CHR 0xA9], [CHR 0xE2, CHR 0x80, CHR 0xAF],
      [CHR 0xE2, CHR 0x81, CHR 0x9F], [CHR 0xE3, CHR 0x80, CHR 0x80],
      [CHR 0xEF, CHR 0xBB, CHR 0xBF]]"

text \<open>Dropping leading white space, at most \<open>k\<close> characters of it.\<close>

fun trimStart :: "nat \<Rightarrow> string \<Rightarrow> string" where
  "trimStart 0 str = str"
| "trimStart (Suc k) str =
     (case find (\<lambda>w. take (length w) str = w) whiteSpace of
        None \<Rightarrow> str
      | Some w \<Rightarrow> trimStart k (drop (length w) str))"

definition digitValue :: "char \<Rightarrow> int option" where
  "digitValue c = map_of (zip ''0123456789'' [0, 1, 2, 3, 4, 5, 6, 7, 8, 9]) c"

text \<open>The value of the longest prefix of decimal digits, \<open>None\<close> when there is none.\<close>

fun leadingDigits :: "string \<Rightarrow> int option \<Rightarrow> int option" where
  "leadingDigits [] acc = acc"
| "leadingDigits (c # cs) acc =
     (case digitValue c of
        None \<Rightarrow> acc
      | Some d \<Rightarrow> leadingDigits cs (Some (10 * (case acc of None \<Rightarrow> 0 | Some a \<Rightarrow> a) + d)))"

text \<open>The number of binary digits of \<open>n\<close>.\<close>

fun bitLength :: "nat \<Rightarrow> nat" where
  "bitLength n = (if n = 0 then 0 else Suc (bitLength (n div 2)))"

declare bitLength.simps [simp del]

text \<open>
  The number that a mathematical integer becomes: itself below \<open>2^53\<close>, otherwise
  the nearest integer with 53 significant bits, a tie going to the even one. (Beyond the
  largest finite number, a digit string of more than 308 digits, JavaScript gives an
  infinity, which is not modelled.)
\<close>

definition roundToDouble :: "int \<Rightarrow> int" where
  "roundToDouble n =
     (let m = nat \<bar>n\<bar>
      in if m < 2 ^ 53 then n
         else (let e = bitLength m - 53;
                   q = m div 2 ^ e;
                   r = m mod 2 ^ e;
                   q' = (if 2 ^ (e - 1) < r \<or> (r = 2 ^ (e - 1) \<and> odd q) then q + 1 else q)
               in sgn n * int (q' * 2 ^ e)))"

text \<open>
  \<open>parseInt(v, 10)\<close> of a \<open>data-*\<close> attribute: leading white space is skipped, one
  sign is read, then the longest run of digits; anything after it is ignored. A missing
  attribute is \<open>undefined\<close>, whose string form has no digits.
\<close>

definition parseInt :: "string option \<Rightarrow> int option" where
  "parseInt v =
     (case v of
        None \<Rightarrow> None
      | Some str \<Rightarrow>
          (let t = trimStart (length str) str;
               neg = (case t of [] \<Rightarrow> False | c # _ \<Rightarrow> c = CHR ''-'');
               u = (case t of [] \<Rightarrow> [] | c # r \<Rightarrow> if c = CHR ''-'' \<or> c = CHR ''+'' then r else t)
           in case leadingDigits u None of
                None \<Rightarrow> None
              | Some n \<Rightarrow> Some (roundToDouble (if neg then - n else n))))"

text \<open>\<open>container.dataset.transition || 'instant'\<close>: a missing or empty attribute is falsy.\<close>

definition transitionOrInstant :: "string option \<Rightarrow> string" where
  "transitionOrInstant a = (case a of None \<Rightarrow> ''instant'' | Some t \<Rightarrow> if t = [] then ''instant'' else t)"

section \<open>The container, the events, the instance\<close>

text \<open>
  What one \<open>.vvjs-inner\<close> container offers when the slideshow attaches: its
  \<open>data-*\<close> attributes (\<open>None\<close> when absent), the number of \<open>.vvjs-item\<close>
  elements, and three facts of the page at that moment.
\<close>

record container =
  data_time :: "string option"
  slides :: nat
  data_enableLooping :: "string option"
  data_startIndex :: "string option"
  data_static :: "string option"
  data_transition :: "string option"
  data_transitionDuration :: "string option"
  data_enableSwipe :: "string option"
  data_pauseOnHover :: "string option"
  prefersReducedMotion :: bool
  elementVisible :: bool
  deeplinkFragment :: "string option"

text \<open>
  The custom events that the core, the transitions module and the events module dispatch
  on the container, with their \<open>detail\<close>. The orchestrator and the visibility module
  dispatch three more (initialized, destroyed, visibility changed), which nothing in these
  modules listens to.
\<close>

datatype event =
    SlideChanging jsnum jsnum
  | SlideChanged jsnum nat
  | TransitionComplete jsnum string
  | AutoSlideStarted
  | AutoSlideStopped
  | PauseToggled bool
  | Swipe string real
  | MouseEnter
  | MouseLeave

text \<open>
  \<open>activeTransition\<close> of the transitions module: the watched slide (0-based position
  in the node list), the \<open>transitionend\<close> listener and the handle of the fallback
  timeout.
\<close>

record job =
  element :: nat
  listener :: nat
  timeout :: nat

text \<open>
  Each call of \<open>setupTransitionCompletion\<close> creates one closure environment: the
  captured \<open>element\<close> and the local flag \<open>transitionEnded\<close>, shared by the
  \<open>cleanup\<close> function and the listener made in that call.
\<close>

record closure =
  captured :: nat
  transitionEnded :: bool

text \<open>
  One slideshow instance. The fields of \<open>SlideshowCore\<close>,
  \<open>SlideshowTransitions\<close> and \<open>SlideshowEvents\<close> keep their names. The container
  contributes its live \<open>data-transition\<close> attribute and the sequence of events
  dispatched on it so far (oldest first). The browser contributes the running intervals
  (handle and period; the callback of each is \<open>nextSlide\<close>), the pending timeouts
  (handle and delay; the callback of each is the \<open>cleanup\<close> of the closure made with
  it, which the model names by the same handle), the \<open>transitionend\<close> listeners
  registered on slides (slide and closure), and the number of timer handles handed out.
  Timer handles are positive integers, hence truthy: \<open>None\<close> stands for \<open>null\<close>.
  Inline styles, classes and ARIA attributes of the slides are not part of the state.
\<close>

record slideshow =
  slideTime :: int
  totalSlides :: nat
  loopingEnabled :: bool
  slideIndex :: jsnum
  currentSlideIndex :: jsnum
  isPaused :: bool
  isVisible :: bool
  autoSlideIntervalId :: "nat option"
  dataset_transition :: "string option"
  dispatched :: "event list"
  transitionsBound :: bool
  transitionType :: string
  transitionDuration :: int
  activeTransition :: "job option"
  originalTransitionType :: "string option"
  touchStartX :: "real option"
  touchStartY :: "real option"
  touchEndX :: "real option"
  touchEndY :: "real option"
  isDragging :: bool
  dragThreshold :: real
  isMouseOver :: bool
  swipeEnabled :: bool
  pauseOnHover :: bool
  intervals :: "(nat \<times> int) list"
  timeouts :: "(nat \<times> real) list"
  transitionendListeners :: "(nat \<times> nat) list"
  closures :: "nat \<rightharpoonup> closure"
  handles :: nat

section \<open>Browser primitives\<close>

definition recordEvent :: "event \<Rightarrow> slideshow \<Rightarrow> slideshow" where
  "recordEvent e s = s\<lparr>dispatched := dispatched s @ [e]\<rparr>"

definition clearInterval :: "nat \<Rightarrow> slideshow \<Rightarrow> slideshow" where
  "clearInterval h s = s\<lparr>intervals := filter (\<lambda>p. fst p \<noteq> h) (intervals s)\<rparr>"

definition clearTimeout :: "nat \<Rightarrow> slideshow \<Rightarrow> slideshow" where
  "clearTimeout h s = s\<lparr>timeouts := filter (\<lambda>p. fst p \<noteq> h) (timeouts s)\<rparr>"

definition removeEventListener :: "nat \<Rightarrow> nat \<Rightarrow> slideshow \<Rightarrow> slideshow" where
  "removeEventListener el l s =
     s\<lparr>transitionendListeners := filter (\<lambda>p. p \<noteq> (el, l)) (transitionendListeners s)\<rparr>"

text \<open>Registering the same listener on the same element twice has no effect.\<close>

definition addEventListener :: "nat \<Rightarrow> nat \<Rightarrow> slideshow \<Rightarrow> slideshow" where
  "addEventListener el l s =
     (if (el, l) \<in> set (transitionendListeners s) then s
      else s\<lparr>transitionendListeners := transitionendListeners s @ [(el, l)]\<rparr>)"

section \<open>SlideshowTransitions\<close>

text \<open>
  \<open>cleanupActiveTransition\<close>: clears the fallback timeout and removes the listener of
  the transition in flight, if there is one.
\<close>

definition cleanupActiveTransition :: "slideshow \<Rightarrow> slideshow" where
  "cleanupActiveTransition s =
     (case activeTransition s of
        None \<Rightarrow> s
      | Some j \<Rightarrow>
          (removeEventListener (element j) (listener j) (clearTimeout (timeout j) s))
            \<lparr>activeTransition := None\<rparr>)"

text \<open>
  \<open>SlideshowCore.updateAccessibilityAttributes\<close>: sets display, ARIA and focus
  attributes of every slide from \<open>slideIndex\<close> (not part of the state), then dispatches
  \<open>vvjs:slideChanged\<close>. Its listeners (navigation dots, announcer, URL hash) only
  write to the page.
\<close>

definition updateAccessibilityAttributes :: "slideshow \<Rightarrow> slideshow" where
  "updateAccessibilityAttributes s = recordEvent (SlideChanged (slideIndex s) (totalSlides s)) s"

text \<open>\<open>SlideshowCore.adjustHeight\<close> measures the current slide and sets a height style.\<close>

definition adjustHeight :: "slideshow \<Rightarrow> slideshow" where
  "adjustHeight s = s"

text \<open>
  \<open>onTransitionComplete\<close>: cleans up, then dispatches \<open>vvjs:transitionComplete\<close>.
  The listener that \<open>SlideshowCore.init\<close> registered for it runs synchronously:
  \<open>updateAccessibilityAttributes\<close>, then \<open>adjustHeight\<close>.
\<close>

definition onTransitionComplete :: "slideshow \<Rightarrow> slideshow" where
  "onTransitionComplete s =
     (let s1 = cleanupActiveTransition s;
          s2 = recordEvent (TransitionComplete (slideIndex s1) (transitionType s1)) s1
      in adjustHeight (updateAccessibilityAttributes s2))"

text \<open>
  The \<open>cleanup\<close> closure of \<open>setupTransitionCompletion\<close>, named by its handle: it
  returns at once when its flag is set; otherwise it sets the flag, removes the listener
  of the active transition from its captured element, and completes.
\<close>

definition cleanup :: "nat \<Rightarrow> slideshow \<Rightarrow> slideshow" where
  "cleanup c s =
     (case closures s c of
        None \<Rightarrow> s
      | Some cl \<Rightarrow>
          if transitionEnded cl then s
          else
            (let s1 = s\<lparr>closures := (closures s)(c \<mapsto> cl\<lparr>transitionEnded := True\<rparr>)\<rparr>;
                 s2 = (case activeTransition s1 of
                         None \<Rightarrow> s1
                       | Some j \<Rightarrow> removeEventListener (captured cl) (listener j) s1)
             in onTransitionComplete s2))"

text \<open>
  \<open>setupTransitionCompletion(element, variant)\<close>: the total duration is the configured
  one, times 1.3 for the staged variant; the fallback timeout is armed 100 ms after it,
  the transition is stored as active and its listener is registered on the element.
\<close>

definition setupTransitionCompletion :: "nat \<Rightarrow> string \<Rightarrow> slideshow \<Rightarrow> slideshow" where
  "setupTransitionCompletion el variant s =
     (let totalDuration =
            (if variant = ''staged'' then real_of_int (transitionDuration s) * 1.3
             else real_of_int (transitionDuration s));
          h = Suc (handles s);
          s1 = s\<lparr>closures := (closures s)(h \<mapsto> \<lparr>captured = el, transitionEnded = False\<rparr>),
                 handles := h,
                 timeouts := timeouts s @ [(h, totalDuration + 100)]\<rparr>;
          s2 = s1\<lparr>activeTransition := Some \<lparr>element = el, listener = h, timeout = h\<rparr>\<rparr>
      in addEventListener el h s2)"

text \<open>\<open>applyCrossfadeTransition\<close> restacks and fades the two slides by inline styles and
  classes, then sets up completion detection on the incoming slide.\<close>

definition applyCrossfadeTransition :: "nat option \<Rightarrow> nat \<Rightarrow> string \<Rightarrow> slideshow \<Rightarrow> slideshow" where
  "applyCrossfadeTransition outgoing incoming variant s = setupTransitionCompletion incoming variant s"

definition transitionInstant :: "nat option \<Rightarrow> nat \<Rightarrow> slideshow \<Rightarrow> slideshow" where
  "transitionInstant outgoing incoming s = onTransitionComplete s"

text \<open>\<open>this.slides[i - 1]\<close>: the slide at a 1-based index, \<open>None\<close> for \<open>undefined\<close>,
  which is what a key that is no integer from 0 to the length less one finds.\<close>

definition slideAt :: "slideshow \<Rightarrow> jsnum \<Rightarrow> nat option" where
  "slideAt s i =
     (case i of
        NaN \<Rightarrow> None
      | Num k \<Rightarrow> if isInteger (Num k) \<and> 1 \<le> k \<and> k \<le> real (totalSlides s)
                 then Some (nat (\<lfloor>k\<rfloor> - 1)) else None)"

definition performTransition :: "jsnum \<Rightarrow> jsnum \<Rightarrow> slideshow \<Rightarrow> slideshow" where
  "performTransition fromIndex toIndex s =
     (let s1 = cleanupActiveTransition s;
          outgoing = (if js_truthy fromIndex then slideAt s1 fromIndex else None)
      in case slideAt s1 toIndex of
           None \<Rightarrow> s1
         | Some incoming \<Rightarrow>
             if transitionType s1 = ''instant'' then transitionInstant outgoing incoming s1
             else if transitionType s1 = ''crossfade-classic''
               then applyCrossfadeTransition outgoing incoming ''classic'' s1
             else if transitionType s1 = ''crossfade-staged''
               then applyCrossfadeTransition outgoing incoming ''staged'' s1
             else if transitionType s1 = ''crossfade-dynamic''
               then applyCrossfadeTransition outgoing incoming ''dynamic'' s1
             else transitionInstant outgoing incoming s1)"

text \<open>\<open>handleReducedMotion\<close>: remembers the configured type once and switches the module
  and the container attribute to instant.\<close>

definition handleReducedMotion :: "slideshow \<Rightarrow> slideshow" where
  "handleReducedMotion s =
     s\<lparr>originalTransitionType :=
          (case originalTransitionType s of
             None \<Rightarrow> Some (transitionType s)
           | Some t \<Rightarrow> if t = [] then Some (transitionType s) else Some t),
       transitionType := ''instant'',
       dataset_transition := Some ''instant''\<rparr>"

text \<open>\<open>SlideshowTransitions.destroy\<close> (the style resets are not part of the state).\<close>

definition transitions_destroy :: "slideshow \<Rightarrow> slideshow" where
  "transitions_destroy s = cleanupActiveTransition s"

section \<open>SlideshowCore\<close>

text \<open>
  \<open>updateSlideVisibility\<close>: dispatches \<open>vvjs:slideChanging\<close> first; the listener
  bound by the transitions module, when it is bound, runs \<open>performTransition\<close>
  synchronously (the progress bar's listener only restarts its own animation). Then the
  tracked index is updated and, for the instant type, the attributes at once.
\<close>

definition updateSlideVisibility :: "slideshow \<Rightarrow> slideshow" where
  "updateSlideVisibility s =
     (let previousIndex = currentSlideIndex s;
          newIndex = slideIndex s;
          s1 = recordEvent (SlideChanging previousIndex newIndex) s;
          s2 = (if transitionsBound s1 then performTransition previousIndex newIndex s1 else s1);
          s3 = s2\<lparr>currentSlideIndex := newIndex\<rparr>
      in if transitionOrInstant (dataset_transition s3) = ''instant''
         then adjustHeight (updateAccessibilityAttributes s3)
         else s3)"

definition stopAutoSlide :: "slideshow \<Rightarrow> slideshow" where
  "stopAutoSlide s =
     (case autoSlideIntervalId s of
        None \<Rightarrow> s
      | Some h \<Rightarrow> recordEvent AutoSlideStopped ((clearInterval h s)\<lparr>autoSlideIntervalId := None\<rparr>))"

definition startAutoSlide :: "slideshow \<Rightarrow> slideshow" where
  "startAutoSlide s =
     (let s1 = stopAutoSlide s
      in if slideTime s1 > 0 \<and> \<not> isPaused s1 \<and> isVisible s1
         then recordEvent AutoSlideStarted
                (s1\<lparr>intervals := intervals s1 @ [(Suc (handles s1), slideTime s1)],
                    handles := Suc (handles s1),
                    autoSlideIntervalId := Some (Suc (handles s1))\<rparr>)
         else s1)"

definition nextSlide :: "slideshow \<Rightarrow> slideshow" where
  "nextSlide s =
     (if loopingEnabled s
      then adjustHeight (updateSlideVisibility
             (s\<lparr>slideIndex := js_plus (js_rem (slideIndex s) (Num (real (totalSlides s)))) (Num 1)\<rparr>))
      else if js_less (slideIndex s) (Num (real (totalSlides s)))
      then adjustHeight (updateSlideVisibility (s\<lparr>slideIndex := js_plus (slideIndex s) (Num 1)\<rparr>))
      else stopAutoSlide s)"

definition prevSlide :: "slideshow \<Rightarrow> slideshow" where
  "prevSlide s =
     (if loopingEnabled s
      then adjustHeight (updateSlideVisibility
             (s\<lparr>slideIndex := (if js_strict_eq (slideIndex s) (Num 1) then Num (real (totalSlides s))
                                else js_minus (slideIndex s) (Num 1))\<rparr>))
      else if js_less (Num 1) (slideIndex s)
      then adjustHeight (updateSlideVisibility (s\<lparr>slideIndex := js_minus (slideIndex s) (Num 1)\<rparr>))
      else s)"

definition goToSlide :: "jsnum \<Rightarrow> slideshow \<Rightarrow> slideshow" where
  "goToSlide index s =
     (if js_le (Num 1) index \<and> js_le index (Num (real (totalSlides s)))
      then adjustHeight (updateSlideVisibility (s\<lparr>slideIndex := index\<rparr>))
      else s)"

definition togglePause :: "slideshow \<Rightarrow> slideshow" where
  "togglePause s =
     (let s1 = s\<lparr>isPaused := \<not> isPaused s\<rparr>;
          s2 = recordEvent (PauseToggled (isPaused s1)) s1
      in if isPaused s2 then stopAutoSlide s2 else startAutoSlide s2)"

definition setVisibility :: "bool \<Rightarrow> slideshow \<Rightarrow> slideshow" where
  "setVisibility visible s =
     (let s1 = s\<lparr>isVisible := visible\<rparr>
      in if visible \<and> \<not> isPaused s1 then startAutoSlide s1 else stopAutoSlide s1)"

definition core_destroy :: "slideshow \<Rightarrow> slideshow" where
  "core_destroy s = stopAutoSlide s"

text \<open>
  The constructor of \<open>SlideshowCore\<close>, with \<open>init\<close>. No other module exists yet, so
  nothing listens to the events of the first \<open>updateSlideVisibility\<close>. The fields of
  the modules built later hold their values before construction.
\<close>

definition SlideshowCore :: "container \<Rightarrow> slideshow" where
  "SlideshowCore c =
     (let startIndex = js_or (parseInt (data_startIndex c)) 1;
          s = \<lparr>slideTime = js_or (parseInt (data_time c)) 5000,
               totalSlides = slides c,
               loopingEnabled = (data_enableLooping c \<noteq> Some ''false''),
               slideIndex = Num (of_int (max 1 (min startIndex (int (slides c))))),
               currentSlideIndex = Num (of_int (max 1 (min startIndex (int (slides c))))),
               isPaused = (data_static c = Some ''true''),
               isVisible = True,
               autoSlideIntervalId = None,
               dataset_transition = data_transition c,
               dispatched = [],
               transitionsBound = False,
               transitionType = [],
               transitionDuration = 0,
               activeTransition = None,
               originalTransitionType = None,
               touchStartX = None,
               touchStartY = None,
               touchEndX = None,
               touchEndY = None,
               isDragging = False,
               dragThreshold = 0,
               isMouseOver = False,
               swipeEnabled = False,
               pauseOnHover = False,
               intervals = [],
               timeouts = [],
               transitionendListeners = [],
               closures = Map.empty,
               handles = 0\<rparr>
      in adjustHeight (updateSlideVisibility s))"

text \<open>
  The constructor of \<open>SlideshowTransitions\<close>: without slides \<open>init\<close> returns before
  binding anything; otherwise the \<open>vvjs:slideChanging\<close> listener is bound and a
  reduced-motion preference is applied at once.
\<close>

definition SlideshowTransitions :: "container \<Rightarrow> slideshow \<Rightarrow> slideshow" where
  "SlideshowTransitions c s =
     (let s1 = s\<lparr>transitionType := transitionOrInstant (dataset_transition s),
                 transitionDuration := js_or (parseInt (data_transitionDuration c)) 600,
                 activeTransition := None\<rparr>
      in if slides c = 0 then s1
         else (let s2 = s1\<lparr>transitionsBound := True\<rparr>
               in if prefersReducedMotion c then handleReducedMotion s2 else s2))"

section \<open>SlideshowEvents\<close>

text \<open>Arithmetic on a coordinate field converts \<open>null\<close> to 0.\<close>

definition toNumber :: "real option \<Rightarrow> real" where
  "toNumber v = (case v of None \<Rightarrow> 0 | Some x \<Rightarrow> x)"

definition SlideshowEvents :: "container \<Rightarrow> slideshow \<Rightarrow> slideshow" where
  "SlideshowEvents c s =
     s\<lparr>touchStartX := None, touchStartY := None, touchEndX := None, touchEndY := None,
       isDragging := False, dragThreshold := 40, isMouseOver := False,
       swipeEnabled := (data_enableSwipe c \<noteq> Some ''false''),
       pauseOnHover := (data_pauseOnHover c \<noteq> Some ''false'')\<rparr>"

definition resetTouchState :: "slideshow \<Rightarrow> slideshow" where
  "resetTouchState s =
     s\<lparr>touchStartX := None, touchStartY := None, touchEndX := None, touchEndY := None,
       isDragging := False\<rparr>"

definition processSwipeGesture :: "slideshow \<Rightarrow> slideshow" where
  "processSwipeGesture s =
     (let deltaX = toNumber (touchEndX s) - toNumber (touchStartX s);
          deltaY = \<bar>toNumber (touchEndY s) - toNumber (touchStartY s)\<bar>
      in if \<bar>deltaX\<bar> > dragThreshold s \<and> deltaY < dragThreshold s * 1.5
         then (let s1 = (if deltaX > 0 then prevSlide s else nextSlide s);
                   s2 = startAutoSlide s1
               in recordEvent (Swipe (if deltaX > 0 then ''right'' else ''left'') \<bar>deltaX\<bar>) s2)
         else s)"

definition handlePointerDown :: "string \<Rightarrow> real \<Rightarrow> real \<Rightarrow> slideshow \<Rightarrow> slideshow" where
  "handlePointerDown pointerType clientX clientY s =
     (if \<not> swipeEnabled s \<or> pointerType = ''mouse'' then s
      else s\<lparr>touchStartX := Some clientX, touchStartY := Some clientY, isDragging := False\<rparr>)"

definition handlePointerMove :: "string \<Rightarrow> real \<Rightarrow> real \<Rightarrow> slideshow \<Rightarrow> slideshow" where
  "handlePointerMove pointerType clientX clientY s =
     (if \<not> swipeEnabled s then s
      else if pointerType = ''mouse'' then s
      else case (touchStartX s, touchStartY s) of
             (Some x0, Some y0) \<Rightarrow>
               if \<bar>clientX - x0\<bar> > \<bar>clientY - y0\<bar> \<and> \<bar>clientX - x0\<bar> > 10
               then s\<lparr>isDragging := True\<rparr> else s
           | _ \<Rightarrow> s)"

definition handlePointerUp :: "string \<Rightarrow> real \<Rightarrow> real \<Rightarrow> slideshow \<Rightarrow> slideshow" where
  "handlePointerUp pointerType clientX clientY s =
     (if \<not> swipeEnabled s \<or> pointerType = ''mouse'' then s
      else resetTouchState
             (processSwipeGesture (s\<lparr>touchEndX := Some clientX, touchEndY := Some clientY\<rparr>)))"



definition handleMouseEnter :: "slideshow \<Rightarrow> slideshow" where
  "handleMouseEnter s =
     (if pauseOnHover s then recordEvent MouseEnter (stopAutoSlide (s\<lparr>isMouseOver := True\<rparr>)) else s)"

definition handleMouseLeave :: "slideshow \<Rightarrow> slideshow" where
  "handleMouseLeave s =
     (if pauseOnHover s then recordEvent MouseLeave (startAutoSlide (s\<lparr>isMouseOver := False\<rparr>)) else s)"

definition setSwipeThreshold :: "real \<Rightarrow> slideshow \<Rightarrow> slideshow" where
  "setSwipeThreshold threshold s = s\<lparr>dragThreshold := max 10 (min 200 threshold)\<rparr>"

section \<open>Callbacks of the browser\<close>

text \<open>A running interval fires: its callback is \<open>nextSlide\<close>. A cleared one never fires.\<close>

definition intervalFires :: "nat \<Rightarrow> slideshow \<Rightarrow> slideshow" where
  "intervalFires h s = (if h \<in> fst ` set (intervals s) then nextSlide s else s)"

text \<open>A pending timeout fires once: it leaves the pending list and runs its \<open>cleanup\<close>.\<close>

definition timeoutFires :: "nat \<Rightarrow> slideshow \<Rightarrow> slideshow" where
  "timeoutFires h s =
     (if h \<in> fst ` set (timeouts s) then cleanup h (clearTimeout h s) else s)"

text \<open>
  The listener made by \<open>setupTransitionCompletion\<close>, named by its closure: it reacts
  to the end of an opacity transition of its own element only. The target of the event is
  a slide (\<open>Some\<close>) or any other node, such as a descendant whose event bubbles.
\<close>

definition transitionendListener :: "nat \<Rightarrow> string \<Rightarrow> nat option \<Rightarrow> slideshow \<Rightarrow> slideshow" where
  "transitionendListener c propertyName target s =
     (case closures s c of
        None \<Rightarrow> s
      | Some cl \<Rightarrow> if propertyName = ''opacity'' \<and> target = Some (captured cl) then cleanup c s else s)"

text \<open>
  A \<open>transitionend\<close> event reaches slide \<open>el\<close>: the listeners registered on it when the
  dispatch starts run in order, each only if it is still registered at its turn.
\<close>

definition transitionendFires :: "nat \<Rightarrow> string \<Rightarrow> nat option \<Rightarrow> slideshow \<Rightarrow> slideshow" where
  "transitionendFires el propertyName target s =
     fold (\<lambda>p st. if fst p = el \<and> p \<in> set (transitionendListeners st)
                   then transitionendListener (snd p) propertyName target st else st)
          (transitionendListeners s) s"

section \<open>The orchestrator\<close>

text \<open>\<open>SlideshowAccessibility.applyReducedMotion\<close>, as far as it touches the core.\<close>

definition applyReducedMotion :: "container \<Rightarrow> slideshow \<Rightarrow> slideshow" where
  "applyReducedMotion c s = (if prefersReducedMotion c then stopAutoSlide (s\<lparr>isPaused := True\<rparr>) else s)"

text \<open>
  \<open>initializeDeepLinking\<close> at attach time: \<open>deeplinkFragment\<close> is what follows the
  last hyphen of the URL fragment when deep linking is enabled and the fragment names
  this slideshow, \<open>None\<close> otherwise.
\<close>

definition initializeDeepLinking :: "container \<Rightarrow> slideshow \<Rightarrow> slideshow" where
  "initializeDeepLinking c s =
     (case deeplinkFragment c of
        None \<Rightarrow> s
      | Some f \<Rightarrow>
          (let slideNumber = numberOf (parseInt (Some f))
           in if js_le (Num 1) slideNumber \<and> js_le slideNumber (Num (real (totalSlides s)))
              then goToSlide slideNumber s else s))"

text \<open>
  \<open>VVJSSlideshow.init\<close>: core, transitions, navigation (page only), accessibility,
  progress (page only), visibility (whose \<open>handleInitialVisibility\<close> reports the measured
  visibility to the core), events, deep linking, and the first \<open>startAutoSlide\<close>.
\<close>

definition VVJSSlideshow :: "container \<Rightarrow> slideshow" where
  "VVJSSlideshow c =
     startAutoSlide
       (initializeDeepLinking c
          (SlideshowEvents c
             (setVisibility (elementVisible c)
                (applyReducedMotion c
                   (SlideshowTransitions c (SlideshowCore c))))))"

text \<open>\<open>VVJSSlideshow.destroy\<close>: the modules in reverse order; only the transitions module
  and the core hold timers.\<close>

definition destroy :: "slideshow \<Rightarrow> slideshow" where
  "destroy s = core_destroy (transitions_destroy (resetTouchState s))"

text \<open>
  Everything that can happen to an attached instance, and a run of such happenings: the
  calls that buttons, keys, the URL fragment and the public functions make into the core,
  the callbacks of the browser, and the input events of the slideshow element. The
  target of \<open>goToSlide\<close> is any number: the public function documents a number and,
  like the core, checks it against the bounds only. The orchestrator's
  \<open>updateConfig\<close>, which assigns arbitrary fields of the core, is not among them.
\<close>

datatype action =
    NextSlide
  | PrevSlide
  | GoToSlide jsnum
  | StartAutoSlide
  | StopAutoSlide
  | TogglePause
  | SetVisibility bool
  | IntervalFires nat
  | TimeoutFires nat
  | TransitionendFires nat string "nat option"
  | ReducedMotion
  | PointerDown string real real
  | PointerMove string real real
  | PointerUp string real real
  | PointerCancel
  | MouseEnters
  | MouseLeaves
  | Destroy

fun step :: "action \<Rightarrow> slideshow \<Rightarrow> slideshow" where
  "step NextSlide s = nextSlide s"
| "step PrevSlide s = prevSlide s"
| "step (GoToSlide n) s = goToSlide n s"
| "step StartAutoSlide s = startAutoSlide s"
| "step StopAutoSlide s = stopAutoSlide s"
| "step TogglePause s = togglePause s"
| "step (SetVisibility v) s = setVisibility v s"
| "step (IntervalFires h) s = intervalFires h s"
| "step (TimeoutFires h) s = timeoutFires h s"
| "step (TransitionendFires el p t) s = transitionendFires el p t s"
| "step ReducedMotion s = handleReducedMotion s"
| "step (PointerDown pt x y) s = handlePointerDown pt x y s"
| "step (PointerMove pt x y) s = handlePointerMove pt x y s"
| "step (PointerUp pt x y) s = handlePointerUp pt x y s"
| "step PointerCancel s = resetTouchState s"
| "step MouseEnters s = handleMouseEnter s"
| "step MouseLeaves s = handleMouseLeave s"
| "step Destroy s = destroy s"

definition run :: "action list \<Rightarrow> slideshow \<Rightarrow> slideshow" where
  "run as s = fold step as s"

text \<open>Counting notifications in the event sequence of the container.\<close>

fun isSlideChanged :: "event \<Rightarrow> bool" where
  "isSlideChanged (SlideChanged i n) = True"
| "isSlideChanged e = False"

fun isSlideChanging :: "event \<Rightarrow> bool" where
  "isSlideChanging (SlideChanging i j) = True"
| "isSlideChanging e = False"

fun isTransitionComplete :: "event \<Rightarrow> bool" where
  "isTransitionComplete (TransitionComplete i t) = True"
| "isTransitionComplete e = False"

definition slideChangedCount :: "slideshow \<Rightarrow> nat" where
  "slideChangedCount s = length (filter isSlideChanged (dispatched s))"

definition slideChangingCount :: "slideshow \<Rightarrow> nat" where
  "slideChangingCount s = length (filter isSlideChanging (dispatched s))"

definition transitionCompleteCount :: "slideshow \<Rightarrow> nat" where
  "transitionCompleteCount s = length (filter isTransitionComplete (dispatched s))"

section \<open>Predicates and sample containers\<close>

text \<open>The bound on the current index: \<open>1 <= slideIndex && slideIndex <= totalSlides\<close>.\<close>

definition indexInRange :: "slideshow \<Rightarrow> bool" where
  "indexInRange s = (js_le (Num 1) (slideIndex s) \<and> js_le (slideIndex s) (Num (real (totalSlides s))))"

text \<open>A container with \<open>n\<close> slides and no \<open>data-*\<close> attribute, fully on screen, on a page
  without a reduced-motion preference and without a URL fragment.\<close>

definition plainContainer :: "nat \<Rightarrow> container" where
  "plainContainer n =
     \<lparr>data_time = None, slides = n, data_enableLooping = None, data_startIndex = None,
      data_static = None, data_transition = None, data_transitionDuration = None,
      data_enableSwipe = None, data_pauseOnHover = None, prefersReducedMotion = False,
      elementVisible = True, deeplinkFragment = None\<rparr>"

text \<open>The index tracked for transition events equals the current index.\<close>

definition tracked :: "slideshow \<Rightarrow> bool" where
  "tracked s = (currentSlideIndex s = slideIndex s)"

text \<open>Between two calls the current index is an integer within its bounds, and tracked.\<close>

definition settled :: "slideshow \<Rightarrow> bool" where
  "settled s = (indexInRange s \<and> isInteger (slideIndex s) \<and> currentSlideIndex s = slideIndex s)"

text \<open>
  A happening that hands the instance no fraction as a slide index: any call of
  \<open>goToSlide\<close> with an integer or \<open>NaN\<close>, and every other happening.
\<close>

fun integralAction :: "action \<Rightarrow> bool" where
  "integralAction (GoToSlide n) = (n = NaN \<or> isInteger n)"
| "integralAction a = True"

text \<open>The three transition types that \<open>performTransition\<close> routes to a crossfade.\<close>

definition isCrossfade :: "string \<Rightarrow> bool" where
  "isCrossfade t = (t = ''crossfade-classic'' \<or> t = ''crossfade-staged'' \<or> t = ''crossfade-dynamic'')"

text \<open>The variant's total duration, as \<open>setupTransitionCompletion\<close> computes it.\<close>

definition totalDuration :: "slideshow \<Rightarrow> real" where
  "totalDuration s =
     (if transitionType s = ''crossfade-staged'' then real_of_int (transitionDuration s) * 1.3
      else real_of_int (transitionDuration s))"

text \<open>
  At most one transition is in flight: the browser holds the timeout and the listener of
  the active transition, whose closure has not ended, and nothing else.
\<close>

definition oneJob :: "slideshow \<Rightarrow> bool" where
  "oneJob s =
     (case activeTransition s of
        None \<Rightarrow> timeouts s = [] \<and> transitionendListeners s = []
      | Some j \<Rightarrow>
          map fst (timeouts s) = [timeout j] \<and>
          transitionendListeners s = [(element j, listener j)] \<and>
          listener j = timeout j \<and>
          closures s (timeout j) = Some \<lparr>captured = element j, transitionEnded = False\<rparr>)"

text \<open>The callbacks by which the browser can end the transition watched on slide \<open>el\<close>
  with handle \<open>h\<close>: its fallback timeout, or the end of an opacity transition of that slide.\<close>

definition completes :: "nat \<Rightarrow> nat \<Rightarrow> action \<Rightarrow> bool" where
  "completes el h a = (a = TimeoutFires h \<or> a = TransitionendFires el ''opacity'' (Some el))"

text \<open>Callbacks of the browser, as opposed to calls into the instance.\<close>

fun isCallback :: "action \<Rightarrow> bool" where
  "isCallback (TimeoutFires h) = True"
| "isCallback (TransitionendFires el p t) = True"
| "isCallback a = False"

text \<open>The transitions module is bound and agrees with the container on the type.\<close>

definition wired :: "slideshow \<Rightarrow> bool" where
  "wired s = (transitionsBound s \<and> transitionType s = transitionOrInstant (dataset_transition s))"

text \<open>What holds of an attached instance between any two happenings.\<close>

definition attached :: "slideshow \<Rightarrow> bool" where
  "attached s = (settled s \<and> wired s \<and> oneJob s)"

text \<open>
  A navigation call that passes the guards of \<open>nextSlide\<close>, \<open>prevSlide\<close> or
  \<open>goToSlide\<close> and therefore reaches \<open>updateSlideVisibility\<close>.
\<close>

fun successfulNavigation :: "action \<Rightarrow> slideshow \<Rightarrow> bool" where
  "successfulNavigation NextSlide s =
     (loopingEnabled s \<or> js_less (slideIndex s) (Num (real (totalSlides s))))"
| "successfulNavigation PrevSlide s = (loopingEnabled s \<or> js_less (Num 1) (slideIndex s))"
| "successfulNavigation (GoToSlide n) s = (js_le (Num 1) n \<and> js_le n (Num (real (totalSlides s))))"
| "successfulNavigation a s = False"

text \<open>Three slides that crossfade, otherwise plain.\<close>

definition crossfadeContainer :: container where
  "crossfadeContainer = (plainContainer 3)\<lparr>data_transition := Some ''crossfade-classic''\<rparr>"

text \<open>Three slides whose container carries \<open>data-time="0"\<close>, the value of the
  "None" option of the auto-advance setting.\<close>

definition zeroTimeContainer :: container where
  "zeroTimeContainer = (plainContainer 3)\<lparr>data_time := Some ''0''\<rparr>"

section \<open>Frame lemmas\<close>

lemmas browser_defs = recordEvent_def clearInterval_def clearTimeout_def
  removeEventListener_def addEventListener_def

lemmas transitions_defs = performTransition_def transitionInstant_def
  applyCrossfadeTransition_def setupTransitionCompletion_def onTransitionComplete_def
  cleanupActiveTransition_def updateAccessibilityAttributes_def adjustHeight_def slideAt_def

lemma adjustHeight_id [simp]: "adjustHeight s = s"
  by (simp add: adjustHeight_def)

lemma performTransition_core [simp]:
  "slideIndex (performTransition a b s) = slideIndex s"
  "totalSlides (performTransition a b s) = totalSlides s"
  "loopingEnabled (performTransition a b s) = loopingEnabled s"
  "currentSlideIndex (performTransition a b s) = currentSlideIndex s"
  "slideTime (performTransition a b s) = slideTime s"
  "isPaused (performTransition a b s) = isPaused s"
  "isVisible (performTransition a b s) = isVisible s"
  "autoSlideIntervalId (performTransition a b s) = autoSlideIntervalId s"
  "intervals (performTransition a b s) = intervals s"
  "dataset_transition (performTransition a b s) = dataset_transition s"
  "transitionsBound (performTransition a b s) = transitionsBound s"
  "transitionType (performTransition a b s) = transitionType s"
  "transitionDuration (performTransition a b s) = transitionDuration s"
  by (simp_all add: transitions_defs browser_defs Let_def split: option.splits jsnum.splits)

lemma updateSlideVisibility_core [simp]:
  "slideIndex (updateSlideVisibility s) = slideIndex s"
  "totalSlides (updateSlideVisibility s) = totalSlides s"
  "loopingEnabled (updateSlideVisibility s) = loopingEnabled s"
  "currentSlideIndex (updateSlideVisibility s) = slideIndex s"
  "slideTime (updateSlideVisibility s) = slideTime s"
  "isPaused (updateSlideVisibility s) = isPaused s"
  "isVisible (updateSlideVisibility s) = isVisible s"
  "autoSlideIntervalId (updateSlideVisibility s) = autoSlideIntervalId s"
  "intervals (updateSlideVisibility s) = intervals s"
  "dataset_transition (updateSlideVisibility s) = dataset_transition s"
  "transitionsBound (updateSlideVisibility s) = transitionsBound s"
  "transitionType (updateSlideVisibility s) = transitionType s"
  "transitionDuration (updateSlideVisibility s) = transitionDuration s"
  by (simp_all add: updateSlideVisibility_def updateAccessibilityAttributes_def recordEvent_def Let_def)

lemma stopAutoSlide_core [simp]:
  "slideIndex (stopAutoSlide s) = slideIndex s"
  "totalSlides (stopAutoSlide s) = totalSlides s"
  "loopingEnabled (stopAutoSlide s) = loopingEnabled s"
  "currentSlideIndex (stopAutoSlide s) = currentSlideIndex s"
  "slideTime (stopAutoSlide s) = slideTime s"
  "isPaused (stopAutoSlide s) = isPaused s"
  "isVisible (stopAutoSlide s) = isVisible s"
  "autoSlideIntervalId (stopAutoSlide s) = None"
  "dataset_transition (stopAutoSlide s) = dataset_transition s"
  "transitionsBound (stopAutoSlide s) = transitionsBound s"
  "transitionType (stopAutoSlide s) = transitionType s"
  "transitionDuration (stopAutoSlide s) = transitionDuration s"
  by (simp_all add: stopAutoSlide_def browser_defs split: option.splits)

lemma startAutoSlide_core [simp]:
  "slideIndex (startAutoSlide s) = slideIndex s"
  "totalSlides (startAutoSlide s) = totalSlides s"
  "loopingEnabled (startAutoSlide s) = loopingEnabled s"
  "currentSlideIndex (startAutoSlide s) = currentSlideIndex s"
  "slideTime (startAutoSlide s) = slideTime s"
  "isPaused (startAutoSlide s) = isPaused s"
  "isVisible (startAutoSlide s) = isVisible s"
  "dataset_transition (startAutoSlide s) = dataset_transition s"
  "transitionsBound (startAutoSlide s) = transitionsBound s"
  "transitionType (startAutoSlide s) = transitionType s"
  "transitionDuration (startAutoSlide s) = transitionDuration s"
  by (simp_all add: startAutoSlide_def browser_defs Let_def)

lemma nextSlide_frame [simp]:
  "totalSlides (nextSlide s) = totalSlides s"
  "loopingEnabled (nextSlide s) = loopingEnabled s"
  "slideTime (nextSlide s) = slideTime s"
  "isPaused (nextSlide s) = isPaused s"
  "isVisible (nextSlide s) = isVisible s"
  "dataset_transition (nextSlide s) = dataset_transition s"
  "transitionsBound (nextSlide s) = transitionsBound s"
  "transitionType (nextSlide s) = transitionType s"
  "transitionDuration (nextSlide s) = transitionDuration s"
  "currentSlideIndex (nextSlide s) = (if \<not> loopingEnabled s \<and> \<not> js_less (slideIndex s) (Num (real (totalSlides s)))
       then currentSlideIndex s else slideIndex (nextSlide s))"
  by (simp_all add: nextSlide_def)

lemma prevSlide_frame [simp]:
  "totalSlides (prevSlide s) = totalSlides s"
  "loopingEnabled (prevSlide s) = loopingEnabled s"
  "slideTime (prevSlide s) = slideTime s"
  "isPaused (prevSlide s) = isPaused s"
  "isVisible (prevSlide s) = isVisible s"
  "dataset_transition (prevSlide s) = dataset_transition s"
  "transitionsBound (prevSlide s) = transitionsBound s"
  "transitionType (prevSlide s) = transitionType s"
  "transitionDuration (prevSlide s) = transitionDuration s"
  "currentSlideIndex (prevSlide s) = (if \<not> loopingEnabled s \<and> \<not> js_less (Num 1) (slideIndex s)
       then currentSlideIndex s else slideIndex (prevSlide s))"
  by (simp_all add: prevSlide_def)

lemma goToSlide_frame [simp]:
  "totalSlides (goToSlide n s) = totalSlides s"
  "loopingEnabled (goToSlide n s) = loopingEnabled s"
  "slideTime (goToSlide n s) = slideTime s"
  "isPaused (goToSlide n s) = isPaused s"
  "isVisible (goToSlide n s) = isVisible s"
  "dataset_transition (goToSlide n s) = dataset_transition s"
  "transitionsBound (goToSlide n s) = transitionsBound s"
  "transitionType (goToSlide n s) = transitionType s"
  "transitionDuration (goToSlide n s) = transitionDuration s"
  by (simp_all add: goToSlide_def)

lemma isInteger_of_int [simp]: "isInteger (Num (of_int k))"
  by simp

lemma isInteger_of_nat [simp]: "isInteger (Num (real k))"
  by simp

lemma isInteger_obtain:
  assumes "isInteger n"
  obtains k where "n = Num (of_int k)"
  using assms by (cases n) (simp_all, metis)

lemma js_rem_nonneg:
  assumes "0 \<le> a" and "0 < b"
  shows "js_rem (Num (of_int a)) (Num (of_int b)) = Num (of_int (a mod b))"
proof -
  have "\<lfloor>(of_int a :: real) / of_int b\<rfloor> = a div b"
    by (simp add: floor_divide_of_int_eq)
  moreover have "0 \<le> (of_int a :: real) / of_int b"
    using assms by simp
  ultimately have "js_trunc (of_int a / of_int b) = a div b"
    by (simp add: js_trunc_def)
  moreover have "a mod b = a - b * (a div b)"
    by (simp add: minus_mult_div_eq_mod)
  ultimately show ?thesis
    using assms by simp
qed

lemma js_rem_slides:
  assumes "0 \<le> a" and "0 < t"
  shows "js_rem (Num (of_int a)) (Num (real t)) = Num (of_int (a mod int t))"
  using js_rem_nonneg [of a "int t"] assms by simp

lemma nextSlide_looping_index:
  "loopingEnabled s \<Longrightarrow>
   slideIndex (nextSlide s) = js_plus (js_rem (slideIndex s) (Num (real (totalSlides s)))) (Num 1)"
  by (simp add: nextSlide_def)

lemma nextSlide_iterate:
  assumes "loopingEnabled s" "slideIndex s = Num 1"
  shows "k < totalSlides s \<Longrightarrow>
     slideIndex ((nextSlide ^^ k) s) = Num (of_int (1 + int k)) \<and>
     loopingEnabled ((nextSlide ^^ k) s) \<and> totalSlides ((nextSlide ^^ k) s) = totalSlides s"
proof (induction k)
  case 0
  then show ?case using assms by simp
next
  case (Suc k)
  then have ih: "slideIndex ((nextSlide ^^ k) s) = Num (of_int (1 + int k))"
    "loopingEnabled ((nextSlide ^^ k) s)" "totalSlides ((nextSlide ^^ k) s) = totalSlides s"
    by simp_all
  from Suc.prems have lt: "1 + int k < int (totalSlides s)" by simp
  then have "js_rem (Num (of_int (1 + int k))) (Num (real (totalSlides s))) = Num (of_int (1 + int k))"
    by (subst js_rem_slides) simp_all
  then show ?case using ih
    by (simp add: nextSlide_looping_index del: of_int_add)
qed

section \<open>The index stays within its bounds\<close>

lemma recordEvent_core [simp]:
  "slideIndex (recordEvent e s) = slideIndex s"
  "totalSlides (recordEvent e s) = totalSlides s"
  "loopingEnabled (recordEvent e s) = loopingEnabled s"
  "currentSlideIndex (recordEvent e s) = currentSlideIndex s"
  "slideTime (recordEvent e s) = slideTime s"
  "isPaused (recordEvent e s) = isPaused s"
  "isVisible (recordEvent e s) = isVisible s"
  "autoSlideIntervalId (recordEvent e s) = autoSlideIntervalId s"
  "intervals (recordEvent e s) = intervals s"
  "dataset_transition (recordEvent e s) = dataset_transition s"
  "transitionsBound (recordEvent e s) = transitionsBound s"
  "transitionType (recordEvent e s) = transitionType s"
  "transitionDuration (recordEvent e s) = transitionDuration s"
  "dispatched (recordEvent e s) = dispatched s @ [e]"
  by (simp_all add: recordEvent_def)

lemma cleanup_core [simp]:
  "slideIndex (cleanup c s) = slideIndex s"
  "totalSlides (cleanup c s) = totalSlides s"
  "currentSlideIndex (cleanup c s) = currentSlideIndex s"
  by (simp_all add: cleanup_def transitions_defs browser_defs Let_def split: option.splits)

lemma transitionendListener_core [simp]:
  "slideIndex (transitionendListener c p t s) = slideIndex s"
  "totalSlides (transitionendListener c p t s) = totalSlides s"
  "currentSlideIndex (transitionendListener c p t s) = currentSlideIndex s"
  by (simp_all add: transitionendListener_def split: option.splits)

lemma transitionendFires_fold_core:
  "slideIndex (fold (\<lambda>p st. if fst p = el \<and> p \<in> set (transitionendListeners st)
                   then transitionendListener (snd p) pn t st else st) xs s) = slideIndex s \<and>
   totalSlides (fold (\<lambda>p st. if fst p = el \<and> p \<in> set (transitionendListeners st)
                   then transitionendListener (snd p) pn t st else st) xs s) = totalSlides s \<and>
   currentSlideIndex (fold (\<lambda>p st. if fst p = el \<and> p \<in> set (transitionendListeners st)
                   then transitionendListener (snd p) pn t st else st) xs s) = currentSlideIndex s"
  by (induction xs arbitrary: s) simp_all

lemma transitionendFires_core [simp]:
  "slideIndex (transitionendFires el pn t s) = slideIndex s"
  "totalSlides (transitionendFires el pn t s) = totalSlides s"
  "currentSlideIndex (transitionendFires el pn t s) = currentSlideIndex s"
  by (simp_all add: transitionendFires_def transitionendFires_fold_core)

lemma settled_index:
  assumes "settled s"
  obtains k where "slideIndex s = Num (of_int k)" and "currentSlideIndex s = Num (of_int k)"
    and "1 \<le> k" and "k \<le> int (totalSlides s)"
proof -
  from assms have "isInteger (slideIndex s)" by (simp add: settled_def)
  then obtain k where k: "slideIndex s = Num (of_int k)" by (rule isInteger_obtain)
  with assms have "(1::real) \<le> of_int k" "(of_int k :: real) \<le> real (totalSlides s)"
    by (simp_all add: settled_def indexInRange_def)
  then have "1 \<le> k" "k \<le> int (totalSlides s)" by linarith+
  moreover from assms k have "currentSlideIndex s = Num (of_int k)" by (simp add: settled_def)
  ultimately show thesis using k that by blast
qed

lemma settled_nextSlide:
  assumes "settled s"
  shows "settled (nextSlide s)"
proof -
  from assms obtain k where k: "slideIndex s = Num (of_int k)" "1 \<le> k" "k \<le> int (totalSlides s)"
    by (rule settled_index)
  then have pos: "0 < totalSlides s" by simp
  have rem: "js_rem (Num (of_int k)) (Num (real (totalSlides s))) = Num (of_int (k mod int (totalSlides s)))"
    using k pos by (intro js_rem_slides) simp_all
  have "0 \<le> k mod int (totalSlides s)" "k mod int (totalSlides s) < int (totalSlides s)"
    using pos by simp_all
  then have rng: "(0::real) \<le> of_int (k mod int (totalSlides s))"
    "(of_int (k mod int (totalSlides s)) :: real) + 1 \<le> real (totalSlides s)"
    by linarith+
  have int1: "isInteger (Num (of_int (k mod int (totalSlides s)) + 1))"
    using isInteger_of_int [of "k mod int (totalSlides s) + 1"] by (simp del: isInteger_of_int isInteger.simps)
  have int2: "isInteger (Num (of_int k + 1))"
    using isInteger_of_int [of "k + 1"] by (simp del: isInteger_of_int isInteger.simps)
  have up: "real_of_int k + 1 \<le> real (totalSlides s)" if "real_of_int k < real (totalSlides s)"
  proof -
    from that have "real_of_int k < real_of_int (int (totalSlides s))" by simp
    then have "k + 1 \<le> int (totalSlides s)" by (simp only: of_int_less_iff)
    then have "real_of_int (k + 1) \<le> real_of_int (int (totalSlides s))" by (simp only: of_int_le_iff)
    then show ?thesis by simp
  qed
  show ?thesis
    using assms k rem rng int1 int2 up
    by (simp add: settled_def indexInRange_def nextSlide_def del: isInteger.simps)
qed

lemma settled_prevSlide:
  assumes "settled s"
  shows "settled (prevSlide s)"
proof -
  from assms obtain k where k: "slideIndex s = Num (of_int k)" "1 \<le> k" "k \<le> int (totalSlides s)"
    by (rule settled_index)
  have int1: "isInteger (Num (of_int k - 1))"
    using isInteger_of_int [of "k - 1"] by (simp del: isInteger_of_int isInteger.simps)
  have one: "isInteger (Num 1)" by simp
  have "k \<noteq> 1 \<Longrightarrow> (1::real) \<le> of_int k - 1" using k by linarith
  then show ?thesis
    using assms k int1 one
    by (auto simp add: settled_def indexInRange_def prevSlide_def simp del: isInteger.simps)
qed

lemma settled_goToSlide: "settled s \<Longrightarrow> n = NaN \<or> isInteger n \<Longrightarrow> settled (goToSlide n s)"
  by (auto simp add: settled_def indexInRange_def goToSlide_def simp del: isInteger.simps)

lemma settled_startAutoSlide: "settled (startAutoSlide s) = settled s"
  by (simp add: settled_def indexInRange_def)

lemma settled_stopAutoSlide: "settled (stopAutoSlide s) = settled s"
  by (simp add: settled_def indexInRange_def)

lemma settled_touch [simp]:
  "settled (s\<lparr>touchStartX := a\<rparr>) = settled s"
  "settled (s\<lparr>touchStartY := a\<rparr>) = settled s"
  "settled (s\<lparr>touchEndX := a\<rparr>) = settled s"
  "settled (s\<lparr>touchEndY := a\<rparr>) = settled s"
  "settled (s\<lparr>isDragging := b\<rparr>) = settled s"
  "settled (s\<lparr>isMouseOver := b\<rparr>) = settled s"
  "settled (s\<lparr>isPaused := b\<rparr>) = settled s"
  "settled (s\<lparr>isVisible := b\<rparr>) = settled s"
  "settled (recordEvent e s) = settled s"
  by (simp_all add: settled_def indexInRange_def recordEvent_def)

lemma settled_processSwipeGesture: "settled s \<Longrightarrow> settled (processSwipeGesture s)"
  by (simp add: processSwipeGesture_def Let_def settled_startAutoSlide settled_nextSlide settled_prevSlide)

lemma settled_cong:
  "slideIndex t = slideIndex s \<Longrightarrow> currentSlideIndex t = currentSlideIndex s \<Longrightarrow>
   totalSlides t = totalSlides s \<Longrightarrow> settled t = settled s"
  by (simp add: settled_def indexInRange_def)

lemma settled_cleanupActiveTransition: "settled (cleanupActiveTransition s) = settled s"
  by (rule settled_cong) (simp_all add: cleanupActiveTransition_def browser_defs split: option.splits)

lemma settled_togglePause: "settled (togglePause s) = settled s"
  by (rule settled_cong) (simp_all add: togglePause_def Let_def)

lemma settled_setVisibility: "settled (setVisibility v s) = settled s"
  by (rule settled_cong) (simp_all add: setVisibility_def Let_def)

lemma settled_timeoutFires: "settled (timeoutFires h s) = settled s"
  by (rule settled_cong) (simp_all add: timeoutFires_def clearTimeout_def)

lemma settled_transitionendFires: "settled (transitionendFires el p t s) = settled s"
  by (rule settled_cong) simp_all

lemma settled_handleReducedMotion: "settled (handleReducedMotion s) = settled s"
  by (rule settled_cong) (simp_all add: handleReducedMotion_def)

lemma settled_resetTouchState: "settled (resetTouchState s) = settled s"
  by (rule settled_cong) (simp_all add: resetTouchState_def)

lemma settled_handlePointerDown: "settled (handlePointerDown pt x y s) = settled s"
  by (rule settled_cong) (simp_all add: handlePointerDown_def)

lemma settled_handlePointerMove: "settled (handlePointerMove pt x y s) = settled s"
  by (rule settled_cong) (simp_all add: handlePointerMove_def split: option.splits)

lemma settled_handleMouseEnter: "settled (handleMouseEnter s) = settled s"
  by (rule settled_cong) (simp_all add: handleMouseEnter_def)

lemma settled_handleMouseLeave: "settled (handleMouseLeave s) = settled s"
  by (rule settled_cong) (simp_all add: handleMouseLeave_def)

lemma settled_step: "settled s \<Longrightarrow> integralAction a \<Longrightarrow> settled (step a s)"
  by (cases a)
     (simp_all del: isInteger.simps add: settled_nextSlide settled_prevSlide settled_goToSlide settled_startAutoSlide
        settled_stopAutoSlide settled_togglePause settled_setVisibility intervalFires_def
        settled_timeoutFires settled_transitionendFires settled_handleReducedMotion
        settled_handlePointerDown settled_handlePointerMove handlePointerUp_def
        settled_resetTouchState settled_processSwipeGesture settled_handleMouseEnter
        settled_handleMouseLeave destroy_def core_destroy_def transitions_destroy_def
        settled_cleanupActiveTransition)

lemma settled_run: "settled s \<Longrightarrow> list_all integralAction as \<Longrightarrow> settled (run as s)"
  unfolding run_def by (induction as arbitrary: s) (simp_all add: settled_step)

text \<open>The tracked index follows the current one, whatever numbers \<open>goToSlide\<close> is given.\<close>

lemma tracked_nextSlide: "tracked s \<Longrightarrow> tracked (nextSlide s)"
  by (simp add: tracked_def nextSlide_def)

lemma tracked_prevSlide: "tracked s \<Longrightarrow> tracked (prevSlide s)"
  by (simp add: tracked_def prevSlide_def)

lemma tracked_goToSlide: "tracked s \<Longrightarrow> tracked (goToSlide n s)"
  by (simp add: tracked_def goToSlide_def)

lemma tracked_startAutoSlide: "tracked (startAutoSlide s) = tracked s"
  by (simp add: tracked_def)

lemma tracked_stopAutoSlide: "tracked (stopAutoSlide s) = tracked s"
  by (simp add: tracked_def)

lemma tracked_touch [simp]:
  "tracked (s\<lparr>touchStartX := a\<rparr>) = tracked s"
  "tracked (s\<lparr>touchStartY := a\<rparr>) = tracked s"
  "tracked (s\<lparr>touchEndX := a\<rparr>) = tracked s"
  "tracked (s\<lparr>touchEndY := a\<rparr>) = tracked s"
  "tracked (s\<lparr>isDragging := b\<rparr>) = tracked s"
  "tracked (s\<lparr>isMouseOver := b\<rparr>) = tracked s"
  "tracked (s\<lparr>isPaused := b\<rparr>) = tracked s"
  "tracked (s\<lparr>isVisible := b\<rparr>) = tracked s"
  "tracked (recordEvent e s) = tracked s"
  by (simp_all add: tracked_def recordEvent_def)

lemma tracked_processSwipeGesture: "tracked s \<Longrightarrow> tracked (processSwipeGesture s)"
  by (simp add: processSwipeGesture_def Let_def tracked_startAutoSlide tracked_nextSlide tracked_prevSlide)

lemma tracked_cong:
  "slideIndex t = slideIndex s \<Longrightarrow> currentSlideIndex t = currentSlideIndex s \<Longrightarrow>
   totalSlides t = totalSlides s \<Longrightarrow> tracked t = tracked s"
  by (simp add: tracked_def)

lemma tracked_cleanupActiveTransition: "tracked (cleanupActiveTransition s) = tracked s"
  by (rule tracked_cong) (simp_all add: cleanupActiveTransition_def browser_defs split: option.splits)

lemma tracked_togglePause: "tracked (togglePause s) = tracked s"
  by (rule tracked_cong) (simp_all add: togglePause_def Let_def)

lemma tracked_setVisibility: "tracked (setVisibility v s) = tracked s"
  by (rule tracked_cong) (simp_all add: setVisibility_def Let_def)

lemma tracked_timeoutFires: "tracked (timeoutFires h s) = tracked s"
  by (rule tracked_cong) (simp_all add: timeoutFires_def clearTimeout_def)

lemma tracked_transitionendFires: "tracked (transitionendFires el p t s) = tracked s"
  by (rule tracked_cong) simp_all

lemma tracked_handleReducedMotion: "tracked (handleReducedMotion s) = tracked s"
  by (rule tracked_cong) (simp_all add: handleReducedMotion_def)

lemma tracked_resetTouchState: "tracked (resetTouchState s) = tracked s"
  by (rule tracked_cong) (simp_all add: resetTouchState_def)

lemma tracked_handlePointerDown: "tracked (handlePointerDown pt x y s) = tracked s"
  by (rule tracked_cong) (simp_all add: handlePointerDown_def)

lemma tracked_handlePointerMove: "tracked (handlePointerMove pt x y s) = tracked s"
  by (rule tracked_cong) (simp_all add: handlePointerMove_def split: option.splits)

lemma tracked_handleMouseEnter: "tracked (handleMouseEnter s) = tracked s"
  by (rule tracked_cong) (simp_all add: handleMouseEnter_def)

lemma tracked_handleMouseLeave: "tracked (handleMouseLeave s) = tracked s"
  by (rule tracked_cong) (simp_all add: handleMouseLeave_def)

lemma tracked_step: "tracked s \<Longrightarrow> tracked (step a s)"
  by (cases a)
     (simp_all add: tracked_nextSlide tracked_prevSlide tracked_goToSlide tracked_startAutoSlide
        tracked_stopAutoSlide tracked_togglePause tracked_setVisibility intervalFires_def
        tracked_timeoutFires tracked_transitionendFires tracked_handleReducedMotion
        tracked_handlePointerDown tracked_handlePointerMove handlePointerUp_def
        tracked_resetTouchState tracked_processSwipeGesture tracked_handleMouseEnter
        tracked_handleMouseLeave destroy_def core_destroy_def transitions_destroy_def
        tracked_cleanupActiveTransition)

lemma tracked_run: "tracked s \<Longrightarrow> tracked (run as s)"
  unfolding run_def by (induction as arbitrary: s) (simp_all add: tracked_step)

lemma totalSlides_step [simp]: "totalSlides (step a s) = totalSlides s"
  by (cases a) (simp_all add: togglePause_def setVisibility_def intervalFires_def
      timeoutFires_def clearTimeout_def handleReducedMotion_def handlePointerDown_def handlePointerMove_def
      handlePointerUp_def resetTouchState_def processSwipeGesture_def handleMouseEnter_def handleMouseLeave_def
      destroy_def core_destroy_def transitions_destroy_def cleanupActiveTransition_def browser_defs
      Let_def split: option.splits)

lemma totalSlides_run [simp]: "totalSlides (run as s) = totalSlides s"
  unfolding run_def by (induction as arbitrary: s) simp_all

lemma SlideshowCore_fields [simp]:
  "totalSlides (SlideshowCore c) = slides c"
  "slideIndex (SlideshowCore c) =
     Num (of_int (max 1 (min (js_or (parseInt (data_startIndex c)) 1) (int (slides c)))))"
  "currentSlideIndex (SlideshowCore c) = slideIndex (SlideshowCore c)"
  "slideTime (SlideshowCore c) = js_or (parseInt (data_time c)) 5000"
  "loopingEnabled (SlideshowCore c) = (data_enableLooping c \<noteq> Some ''false'')"
  "isPaused (SlideshowCore c) = (data_static c = Some ''true'')"
  by (simp_all add: SlideshowCore_def Let_def)

lemma settled_SlideshowCore:
  assumes "1 \<le> slides c"
  shows "settled (SlideshowCore c)"
proof -
  let ?k = "max 1 (min (js_or (parseInt (data_startIndex c)) 1) (int (slides c)))"
  have "1 \<le> ?k" "?k \<le> int (slides c)" using assms by simp_all
  then have "(1::real) \<le> of_int ?k" "(of_int ?k :: real) \<le> real (slides c)" by linarith+
  then show ?thesis
    using isInteger_of_int [of ?k]
    by (simp add: settled_def indexInRange_def del: isInteger.simps isInteger_of_int of_int_max of_int_min)
qed

lemma settled_SlideshowTransitions: "settled (SlideshowTransitions c s) = settled s"
  by (rule settled_cong) (simp_all add: SlideshowTransitions_def handleReducedMotion_def Let_def)

lemma settled_applyReducedMotion: "settled (applyReducedMotion c s) = settled s"
  by (rule settled_cong) (simp_all add: applyReducedMotion_def)

lemma settled_SlideshowEvents: "settled (SlideshowEvents c s) = settled s"
  by (rule settled_cong) (simp_all add: SlideshowEvents_def)

lemma numberOf_integral: "numberOf x = NaN \<or> isInteger (numberOf x)"
  by (cases x) (simp_all add: numberOf_def)

lemma settled_initializeDeepLinking: "settled s \<Longrightarrow> settled (initializeDeepLinking c s)"
  by (simp add: initializeDeepLinking_def Let_def settled_goToSlide numberOf_integral
      del: isInteger.simps split: option.splits)

lemma settled_VVJSSlideshow: "1 \<le> slides c \<Longrightarrow> settled (VVJSSlideshow c)"
  by (simp add: VVJSSlideshow_def settled_startAutoSlide settled_initializeDeepLinking
      settled_SlideshowEvents settled_setVisibility settled_applyReducedMotion
      settled_SlideshowTransitions settled_SlideshowCore)

lemma tracked_VVJSSlideshow: "1 \<le> slides c \<Longrightarrow> tracked (VVJSSlideshow c)"
  using settled_VVJSSlideshow [of c] by (simp add: settled_def tracked_def)

section \<open>Navigation\<close>

lemmas attach_defs = VVJSSlideshow_def initializeDeepLinking_def SlideshowEvents_def
  setVisibility_def applyReducedMotion_def SlideshowTransitions_def SlideshowCore_def
  handleReducedMotion_def plainContainer_def updateSlideVisibility_def startAutoSlide_def
  stopAutoSlide_def transitionOrInstant_def js_or_def parseInt_def numberOf_def

lemma plain_attached [simp]:
  "totalSlides (VVJSSlideshow (plainContainer n)) = n"
  "loopingEnabled (VVJSSlideshow (plainContainer n))"
  "1 \<le> n \<Longrightarrow> slideIndex (VVJSSlideshow (plainContainer n)) = Num 1"
  by (simp_all add: attach_defs browser_defs transitions_defs Let_def)

lemma fractional_run_index:
  "slideIndex (run [GoToSlide (Num (5 / 2)), NextSlide] (VVJSSlideshow (plainContainer 3))) = Num (7 / 2)"
  by (simp add: run_def goToSlide_def nextSlide_looping_index js_trunc_def)

lemma fixedContainer_attached:
  "totalSlides (VVJSSlideshow ((plainContainer 3)\<lparr>data_enableLooping := Some ''false''\<rparr>)) = 3"
  "\<not> loopingEnabled (VVJSSlideshow ((plainContainer 3)\<lparr>data_enableLooping := Some ''false''\<rparr>))"
  by (simp_all add: attach_defs browser_defs transitions_defs Let_def)

lemma fractional_run_index_no_looping:
  "slideIndex (run [GoToSlide (Num (5 / 2)), NextSlide]
     (VVJSSlideshow ((plainContainer 3)\<lparr>data_enableLooping := Some ''false''\<rparr>))) = Num (7 / 2)"
  by (simp add: run_def goToSlide_def nextSlide_def fixedContainer_attached)

text \<open>
  Claim C3, as amended. For a container with at least one slide, the constructor clamps the
  parsed starting index into \<open>[1, totalSlides]\<close>, and after attaching and any sequence
  of navigation calls, interval ticks and other happenings in which every target handed to
  \<open>goToSlide\<close> is an integer (or \<open>NaN\<close>), the current index is still within
  \<open>[1, totalSlides]\<close>, with either looping policy.
\<close>

theorem index_always_in_range:
  assumes "1 \<le> slides c" and "list_all integralAction as"
  shows "slideIndex (SlideshowCore c) =
           Num (of_int (max 1 (min (js_or (parseInt (data_startIndex c)) 1) (int (slides c))))) \<and>
         indexInRange (SlideshowCore c) \<and>
         indexInRange (run as (VVJSSlideshow c)) \<and>
         isInteger (slideIndex (run as (VVJSSlideshow c))) \<and>
         totalSlides (run as (VVJSSlideshow c)) = slides c"
proof -
  have "settled (SlideshowCore c)" using assms(1) by (rule settled_SlideshowCore)
  moreover have "settled (run as (VVJSSlideshow c))"
    using assms by (intro settled_run settled_VVJSSlideshow)
  moreover have "totalSlides (VVJSSlideshow c) = slides c"
    by (simp add: VVJSSlideshow_def initializeDeepLinking_def SlideshowEvents_def setVisibility_def
        applyReducedMotion_def SlideshowTransitions_def handleReducedMotion_def Let_def
        split: option.splits)
  ultimately show ?thesis by (simp add: settled_def del: isInteger.simps of_int_max of_int_min)
qed

theorem index_always_in_range_witness:
  "1 \<le> slides ((plainContainer 3)\<lparr>data_startIndex := Some ''7'', data_enableLooping := Some ''false''\<rparr>) \<and>
   list_all integralAction [NextSlide, IntervalFires 2, GoToSlide (Num 9), PrevSlide, GoToSlide NaN] \<and>
   indexInRange (run [NextSlide, IntervalFires 2, GoToSlide (Num 9), PrevSlide, GoToSlide NaN]
     (VVJSSlideshow ((plainContainer 3)\<lparr>data_startIndex := Some ''7'', data_enableLooping := Some ''false''\<rparr>)))"
  using index_always_in_range [of "(plainContainer 3)\<lparr>data_startIndex := Some ''7'', data_enableLooping := Some ''false''\<rparr>"
      "[NextSlide, IntervalFires 2, GoToSlide (Num 9), PrevSlide, GoToSlide NaN]"]
  by (simp add: plainContainer_def)

text \<open>
  Claim C3 as stated fails, because \<open>goToSlide\<close> compares its argument with the
  bounds and never asks for an integer: on three plain slides \<open>goToSlide(2.5)\<close> is
  accepted, and the next \<open>nextSlide\<close> computes \<open>(2.5 % 3) + 1 = 3.5\<close>, beyond
  the total of 3. Without looping \<open>nextSlide\<close> finds \<open>2.5 < 3\<close> and increments
  to \<open>3.5\<close> as well.
\<close>

theorem fractional_target_leaves_range:
  "1 \<le> slides (plainContainer 3) \<and>
   totalSlides (run [GoToSlide (Num (5 / 2)), NextSlide] (VVJSSlideshow (plainContainer 3))) = 3 \<and>
   slideIndex (run [GoToSlide (Num (5 / 2))] (VVJSSlideshow (plainContainer 3))) = Num (5 / 2) \<and>
   slideIndex (run [GoToSlide (Num (5 / 2)), NextSlide] (VVJSSlideshow (plainContainer 3))) = Num (7 / 2) \<and>
   \<not> indexInRange (run [GoToSlide (Num (5 / 2)), NextSlide] (VVJSSlideshow (plainContainer 3))) \<and>
   \<not> loopingEnabled (VVJSSlideshow ((plainContainer 3)\<lparr>data_enableLooping := Some ''false''\<rparr>)) \<and>
   \<not> indexInRange (run [GoToSlide (Num (5 / 2)), NextSlide]
         (VVJSSlideshow ((plainContainer 3)\<lparr>data_enableLooping := Some ''false''\<rparr>)))"
proof -
  let ?s = "run [GoToSlide (Num (5 / 2)), NextSlide] (VVJSSlideshow (plainContainer 3))"
  let ?u = "run [GoToSlide (Num (5 / 2)), NextSlide]
              (VVJSSlideshow ((plainContainer 3)\<lparr>data_enableLooping := Some ''false''\<rparr>))"
  have t: "totalSlides ?s = 3" by simp
  have a: "slideIndex (run [GoToSlide (Num (5 / 2))] (VVJSSlideshow (plainContainer 3))) = Num (5 / 2)"
    by (simp add: run_def goToSlide_def)
  have b: "\<not> indexInRange ?s"
    unfolding indexInRange_def fractional_run_index t by simp
  have "totalSlides ?u = 3" by (simp add: fixedContainer_attached)
  then have c: "\<not> indexInRange ?u"
    unfolding indexInRange_def fractional_run_index_no_looping by simp
  show ?thesis
    using t a b c fractional_run_index fixedContainer_attached(2) by (simp add: plainContainer_def)
qed

text \<open>
  Claim C5. With looping enabled and at least one slide, \<open>nextSlide\<close> sets the
  index to \<open>(slideIndex % totalSlides) + 1\<close>; for an index within bounds this is
  the 1-based successor modulo the total, so the last slide is followed by slide 1, and
  \<open>totalSlides\<close> calls starting from slide 1 end at slide 1.
\<close>

theorem nextSlide_wraps:
  assumes "loopingEnabled s" and "1 \<le> totalSlides s"
  shows "slideIndex (nextSlide s) = js_plus (js_rem (slideIndex s) (Num (real (totalSlides s)))) (Num 1) \<and>
         (\<forall>i. slideIndex s = Num (of_int i) \<and> 1 \<le> i \<and> i \<le> int (totalSlides s) \<longrightarrow>
              slideIndex (nextSlide s) = Num (of_int (i mod int (totalSlides s) + 1))) \<and>
         (slideIndex s = Num (real (totalSlides s)) \<longrightarrow> slideIndex (nextSlide s) = Num 1) \<and>
         (slideIndex s = Num 1 \<longrightarrow> slideIndex ((nextSlide ^^ totalSlides s) s) = Num 1)"
proof (intro conjI allI impI)
  show "slideIndex (nextSlide s) = js_plus (js_rem (slideIndex s) (Num (real (totalSlides s)))) (Num 1)"
    using assms(1) by (rule nextSlide_looping_index)
  show "slideIndex (nextSlide s) = Num (of_int (i mod int (totalSlides s) + 1))"
    if "slideIndex s = Num (of_int i) \<and> 1 \<le> i \<and> i \<le> int (totalSlides s)" for i
  proof -
    have "js_rem (Num (of_int i)) (Num (real (totalSlides s))) = Num (of_int (i mod int (totalSlides s)))"
      using that assms by (intro js_rem_slides) simp_all
    then show ?thesis using that assms by (simp add: nextSlide_looping_index)
  qed
  show "slideIndex (nextSlide s) = Num 1" if "slideIndex s = Num (real (totalSlides s))"
    using that assms js_rem_slides [of "int (totalSlides s)" "totalSlides s"]
    by (simp add: nextSlide_looping_index)
  show "slideIndex ((nextSlide ^^ totalSlides s) s) = Num 1" if one: "slideIndex s = Num 1"
  proof -
    obtain k where k: "totalSlides s = Suc k" using assms(2) by (cases "totalSlides s") simp_all
    then have "k < totalSlides s" by simp
    from nextSlide_iterate [OF assms(1) one this]
    have "slideIndex ((nextSlide ^^ k) s) = Num (real (totalSlides s))"
      "loopingEnabled ((nextSlide ^^ k) s)" "totalSlides ((nextSlide ^^ k) s) = totalSlides s"
      using k by simp_all
    then have "slideIndex (nextSlide ((nextSlide ^^ k) s)) = Num 1"
      using assms(2) js_rem_slides [of "int (totalSlides s)" "totalSlides s"]
      by (simp add: nextSlide_looping_index)
    then show ?thesis using k by simp
  qed
qed

theorem nextSlide_wraps_witness:
  "loopingEnabled (VVJSSlideshow (plainContainer 5)) \<and>
   1 \<le> totalSlides (VVJSSlideshow (plainContainer 5)) \<and>
   slideIndex (VVJSSlideshow (plainContainer 5)) = Num 1 \<and>
   slideIndex ((nextSlide ^^ 4) (VVJSSlideshow (plainContainer 5))) = Num 5 \<and>
   slideIndex ((nextSlide ^^ 5) (VVJSSlideshow (plainContainer 5))) = Num 1"
proof -
  have a: "loopingEnabled (VVJSSlideshow (plainContainer 5))" by simp
  have b: "1 \<le> totalSlides (VVJSSlideshow (plainContainer 5))" by simp
  have c: "slideIndex (VVJSSlideshow (plainContainer 5)) = Num 1" by simp
  have d: "slideIndex ((nextSlide ^^ 4) (VVJSSlideshow (plainContainer 5))) = Num 5"
    using nextSlide_iterate [OF a c, of 4] by simp
  show ?thesis using nextSlide_wraps [OF a b] a b c d by simp
qed

text \<open>
  Claim C4. \<open>goToSlide(n)\<close> with \<open>1 \<le> n \<le> totalSlides\<close> makes \<open>n\<close> the current
  index; with any other number, or \<open>NaN\<close>, it returns the instance exactly as it was
  (the model has no error outcome: the function has no \<open>throw\<close>).
\<close>

theorem goToSlide_sets_or_ignores:
  "(1 \<le> n \<and> n \<le> real (totalSlides s) \<longrightarrow> slideIndex (goToSlide (Num n) s) = Num n) \<and>
   (\<not> (1 \<le> n \<and> n \<le> real (totalSlides s)) \<longrightarrow> goToSlide (Num n) s = s) \<and>
   goToSlide NaN s = s"
  by (simp add: goToSlide_def)

theorem goToSlide_sets_or_ignores_witness:
  "slideIndex (goToSlide (Num 2) (VVJSSlideshow (plainContainer 3))) = Num 2 \<and>
   goToSlide (Num 4) (VVJSSlideshow (plainContainer 3)) = VVJSSlideshow (plainContainer 3) \<and>
   goToSlide (Num 0) (VVJSSlideshow (plainContainer 3)) = VVJSSlideshow (plainContainer 3)"
  using goToSlide_sets_or_ignores [of 2 "VVJSSlideshow (plainContainer 3)"]
    goToSlide_sets_or_ignores [of 4 "VVJSSlideshow (plainContainer 3)"]
    goToSlide_sets_or_ignores [of 0 "VVJSSlideshow (plainContainer 3)"]
  by simp

section \<open>Visibility and the ends without looping\<close>

lemma VVJSSlideshow_fields [simp]:
  "totalSlides (VVJSSlideshow c) = slides c"
  "loopingEnabled (VVJSSlideshow c) = (data_enableLooping c \<noteq> Some ''false'')"
  "slideTime (VVJSSlideshow c) = js_or (parseInt (data_time c)) 5000"
  "isPaused (VVJSSlideshow c) = (prefersReducedMotion c \<or> data_static c = Some ''true'')"
  by (simp_all add: VVJSSlideshow_def initializeDeepLinking_def SlideshowEvents_def setVisibility_def
        applyReducedMotion_def SlideshowTransitions_def handleReducedMotion_def Let_def
        split: option.splits)

text \<open>
  Claim C9. \<open>setVisibility(v)\<close> changes nothing but the visible flag and the autoplay
  timer (the stored handle, the browser's running intervals and handle count, and the
  started/stopped notifications): afterwards a timer runs exactly when \<open>v\<close> holds, the
  slideshow is not paused and the interval is positive, and otherwise the timer that ran
  before is cleared. The current index and the paused flag are untouched.
\<close>

theorem setVisibility_frame:
  "(setVisibility v s)\<lparr>isVisible := isVisible s, autoSlideIntervalId := autoSlideIntervalId s,
       intervals := intervals s, handles := handles s, dispatched := dispatched s\<rparr> = s \<and>
   isVisible (setVisibility v s) = v \<and>
   slideIndex (setVisibility v s) = slideIndex s \<and>
   isPaused (setVisibility v s) = isPaused s \<and>
   (autoSlideIntervalId (setVisibility v s) \<noteq> None \<longleftrightarrow> v \<and> \<not> isPaused s \<and> 0 < slideTime s) \<and>
   (\<forall>h. autoSlideIntervalId (setVisibility v s) = Some h \<longrightarrow>
        (h, slideTime s) \<in> set (intervals (setVisibility v s))) \<and>
   (\<not> (v \<and> \<not> isPaused s) \<longrightarrow>
        (\<forall>h. autoSlideIntervalId s = Some h \<longrightarrow> h \<notin> fst ` set (intervals (setVisibility v s)))) \<and>
   set (drop (length (dispatched s)) (dispatched (setVisibility v s))) \<subseteq> {AutoSlideStarted, AutoSlideStopped}"
proof (intro conjI)
  show "(setVisibility v s)\<lparr>isVisible := isVisible s, autoSlideIntervalId := autoSlideIntervalId s,
       intervals := intervals s, handles := handles s, dispatched := dispatched s\<rparr> = s"
    by (simp add: setVisibility_def startAutoSlide_def stopAutoSlide_def browser_defs Let_def
        split: option.splits)
  show "isVisible (setVisibility v s) = v"
    by (simp add: setVisibility_def Let_def)
  show "slideIndex (setVisibility v s) = slideIndex s"
    by (simp add: setVisibility_def Let_def)
  show "isPaused (setVisibility v s) = isPaused s"
    by (simp add: setVisibility_def Let_def)
  show "autoSlideIntervalId (setVisibility v s) \<noteq> None \<longleftrightarrow> v \<and> \<not> isPaused s \<and> 0 < slideTime s"
    by (simp add: setVisibility_def startAutoSlide_def Let_def recordEvent_def)
  show "\<forall>h. autoSlideIntervalId (setVisibility v s) = Some h \<longrightarrow>
        (h, slideTime s) \<in> set (intervals (setVisibility v s))"
    by (simp add: setVisibility_def startAutoSlide_def Let_def recordEvent_def)
  show "\<not> (v \<and> \<not> isPaused s) \<longrightarrow>
        (\<forall>h. autoSlideIntervalId s = Some h \<longrightarrow> h \<notin> fst ` set (intervals (setVisibility v s)))"
    by (auto simp add: setVisibility_def stopAutoSlide_def browser_defs Let_def)
  show "set (drop (length (dispatched s)) (dispatched (setVisibility v s))) \<subseteq> {AutoSlideStarted, AutoSlideStopped}"
    by (simp add: setVisibility_def startAutoSlide_def stopAutoSlide_def browser_defs Let_def
        split: option.splits)
qed

lemma plainContainer_fields [simp]:
  "slides (plainContainer n) = n"
  "data_time (plainContainer n) = None"
  "data_enableLooping (plainContainer n) = None"
  "data_startIndex (plainContainer n) = None"
  "data_static (plainContainer n) = None"
  "data_transition (plainContainer n) = None"
  "data_transitionDuration (plainContainer n) = None"
  "data_enableSwipe (plainContainer n) = None"
  "data_pauseOnHover (plainContainer n) = None"
  "prefersReducedMotion (plainContainer n) = False"
  "elementVisible (plainContainer n) = True"
  "deeplinkFragment (plainContainer n) = None"
  by (simp_all add: plainContainer_def)

lemma parseInt_None [simp]: "parseInt None = None"
  by (simp add: parseInt_def)

lemma js_or_NaN [simp]: "js_or None d = d"
  by (simp add: js_or_def)

theorem setVisibility_frame_witness:
  "isVisible (setVisibility False (VVJSSlideshow (plainContainer 3))) = False \<and>
   autoSlideIntervalId (setVisibility False (VVJSSlideshow (plainContainer 3))) = None \<and>
   autoSlideIntervalId (setVisibility True (VVJSSlideshow (plainContainer 3))) \<noteq> None \<and>
   slideIndex (setVisibility False (VVJSSlideshow (plainContainer 3))) = Num 1 \<and>
   isPaused (setVisibility True (VVJSSlideshow (plainContainer 3))) = False"
  using setVisibility_frame [where v = False and s = "VVJSSlideshow (plainContainer 3)"]
    setVisibility_frame [where v = True and s = "VVJSSlideshow (plainContainer 3)"]
  by simp

text \<open>
  Claim C6. With looping disabled, \<open>nextSlide\<close> at the last slide only stops autoplay:
  the index stays, no slide-changing or slide-changed notification is dispatched, the
  stored timer handle is cleared and a timer that ran is gone from the browser. Likewise
  \<open>prevSlide\<close> at slide 1 changes nothing at all.
\<close>

theorem no_looping_stops_at_ends:
  assumes "\<not> loopingEnabled s"
  shows "(slideIndex s = Num (real (totalSlides s)) \<longrightarrow>
            nextSlide s = stopAutoSlide s \<and>
            slideIndex (nextSlide s) = slideIndex s \<and>
            slideChangingCount (nextSlide s) = slideChangingCount s \<and>
            slideChangedCount (nextSlide s) = slideChangedCount s \<and>
            autoSlideIntervalId (nextSlide s) = None \<and>
            (\<forall>h. autoSlideIntervalId s = Some h \<longrightarrow> h \<notin> fst ` set (intervals (nextSlide s)))) \<and>
         (slideIndex s = Num 1 \<longrightarrow> prevSlide s = s)"
proof -
  have stop: "slideChangingCount (stopAutoSlide s) = slideChangingCount s"
    "slideChangedCount (stopAutoSlide s) = slideChangedCount s"
    "\<forall>h. autoSlideIntervalId s = Some h \<longrightarrow> h \<notin> fst ` set (intervals (stopAutoSlide s))"
    by (auto simp add: stopAutoSlide_def slideChangingCount_def slideChangedCount_def browser_defs
        split: option.splits)
  have "nextSlide s = stopAutoSlide s" if "slideIndex s = Num (real (totalSlides s))"
    using that assms by (simp add: nextSlide_def)
  moreover have "prevSlide s = s" if "slideIndex s = Num 1"
    using that assms by (simp add: prevSlide_def)
  ultimately show ?thesis using stop by simp
qed

theorem no_looping_stops_at_ends_witness:
  "\<not> loopingEnabled (goToSlide (Num 3) (VVJSSlideshow ((plainContainer 3)\<lparr>data_enableLooping := Some ''false''\<rparr>))) \<and>
   slideIndex (goToSlide (Num 3) (VVJSSlideshow ((plainContainer 3)\<lparr>data_enableLooping := Some ''false''\<rparr>))) = Num 3 \<and>
   slideIndex (nextSlide (goToSlide (Num 3) (VVJSSlideshow ((plainContainer 3)\<lparr>data_enableLooping := Some ''false''\<rparr>)))) = Num 3 \<and>
   autoSlideIntervalId (nextSlide (goToSlide (Num 3) (VVJSSlideshow ((plainContainer 3)\<lparr>data_enableLooping := Some ''false''\<rparr>)))) = None \<and>
   prevSlide (VVJSSlideshow ((plainContainer 3)\<lparr>data_enableLooping := Some ''false''\<rparr>)) =
     VVJSSlideshow ((plainContainer 3)\<lparr>data_enableLooping := Some ''false''\<rparr>)"
proof -
  let ?c = "(plainContainer 3)\<lparr>data_enableLooping := Some ''false''\<rparr>"
  have idx: "slideIndex (goToSlide (Num 3) (VVJSSlideshow ?c)) = Num 3"
    by (simp add: goToSlide_def)
  have one: "slideIndex (VVJSSlideshow ?c) = Num 1"
    by (simp add: VVJSSlideshow_def initializeDeepLinking_def SlideshowEvents_def setVisibility_def
        applyReducedMotion_def SlideshowTransitions_def Let_def)
  show ?thesis
    using no_looping_stops_at_ends [of "goToSlide (Num 3) (VVJSSlideshow ?c)"]
      no_looping_stops_at_ends [of "VVJSSlideshow ?c"] idx one
    by simp
qed

section \<open>The notifications of one navigation\<close>

lemma isCrossfade_instant [simp]: "\<not> isCrossfade ''instant''"
  by (simp add: isCrossfade_def)

lemma dispatched_performTransition:
  "dispatched (performTransition a b s) =
     dispatched s @
     (if slideAt s b \<noteq> None \<and> \<not> isCrossfade (transitionType s)
      then [TransitionComplete (slideIndex s) (transitionType s), SlideChanged (slideIndex s) (totalSlides s)]
      else [])"
  by (simp add: transitions_defs browser_defs isCrossfade_def Let_def split: option.splits jsnum.splits)

lemma slideAt_recordEvent [simp]: "slideAt (recordEvent e s) i = slideAt s i"
  by (simp add: slideAt_def split: jsnum.splits)

lemma dispatched_updateSlideVisibility:
  "dispatched (updateSlideVisibility s) =
     dispatched s @ [SlideChanging (currentSlideIndex s) (slideIndex s)] @
     (if transitionsBound s \<and> slideAt s (slideIndex s) \<noteq> None \<and> \<not> isCrossfade (transitionType s)
      then [TransitionComplete (slideIndex s) (transitionType s), SlideChanged (slideIndex s) (totalSlides s)]
      else []) @
     (if transitionOrInstant (dataset_transition s) = ''instant''
      then [SlideChanged (slideIndex s) (totalSlides s)] else [])"
  by (simp add: updateSlideVisibility_def dispatched_performTransition updateAccessibilityAttributes_def Let_def)

lemma slideAt_in_range:
  "indexInRange s \<Longrightarrow> isInteger (slideIndex s) \<Longrightarrow> slideAt s (slideIndex s) \<noteq> None"
  by (cases "slideIndex s") (simp_all add: indexInRange_def slideAt_def)

section \<open>One transition in flight\<close>

lemma oneJob_cong:
  "activeTransition t = activeTransition s \<Longrightarrow> timeouts t = timeouts s \<Longrightarrow>
   transitionendListeners t = transitionendListeners s \<Longrightarrow> closures t = closures s \<Longrightarrow>
   oneJob t = oneJob s"
  by (simp add: oneJob_def split: option.splits)

lemma wired_cong:
  "transitionsBound t = transitionsBound s \<Longrightarrow> transitionType t = transitionType s \<Longrightarrow>
   dataset_transition t = dataset_transition s \<Longrightarrow> wired t = wired s"
  by (simp add: wired_def)

lemma filter_only_key: "map fst xs = [h] \<Longrightarrow> filter (\<lambda>p. fst p \<noteq> h) xs = []"
  by (cases xs) auto

lemma only_key_mem: "map fst xs = [h] \<Longrightarrow> k \<in> fst ` set xs \<longleftrightarrow> k = h"
  by (cases xs) auto

text \<open>The state after the active transition has completed.\<close>

lemma cleanup_active:
  assumes "oneJob t" and "activeTransition t = Some j"
  shows "cleanup (timeout j) t =
           t\<lparr>closures := (closures t)(timeout j \<mapsto> \<lparr>captured = element j, transitionEnded = True\<rparr>),
             transitionendListeners := [], timeouts := [], activeTransition := None,
             dispatched := dispatched t @ [TransitionComplete (slideIndex t) (transitionType t),
                                           SlideChanged (slideIndex t) (totalSlides t)]\<rparr>"
  using assms
  by (simp add: oneJob_def cleanup_def onTransitionComplete_def cleanupActiveTransition_def
      updateAccessibilityAttributes_def browser_defs filter_only_key Let_def)

lemma timeoutFires_active:
  assumes "oneJob t" and "activeTransition t = Some j"
  shows "timeoutFires (timeout j) t =
           t\<lparr>closures := (closures t)(timeout j \<mapsto> \<lparr>captured = element j, transitionEnded = True\<rparr>),
             transitionendListeners := [], timeouts := [], activeTransition := None,
             dispatched := dispatched t @ [TransitionComplete (slideIndex t) (transitionType t),
                                           SlideChanged (slideIndex t) (totalSlides t)]\<rparr>"
  using assms
  by (simp add: oneJob_def timeoutFires_def cleanup_def onTransitionComplete_def cleanupActiveTransition_def
      updateAccessibilityAttributes_def browser_defs filter_only_key only_key_mem Let_def)

lemma timeoutFires_other:
  assumes "oneJob t" and "activeTransition t = Some j" and "h \<noteq> timeout j"
  shows "timeoutFires h t = t"
  using assms by (simp add: oneJob_def timeoutFires_def only_key_mem)

lemma timeoutFires_idle:
  assumes "oneJob t" and "activeTransition t = None"
  shows "timeoutFires h t = t"
  using assms by (simp add: oneJob_def timeoutFires_def)

lemma transitionendFires_idle:
  assumes "oneJob t" and "activeTransition t = None"
  shows "transitionendFires el p tg t = t"
  using assms by (simp add: oneJob_def transitionendFires_def)

lemma transitionendFires_active:
  assumes "oneJob t" and "activeTransition t = Some j"
  shows "transitionendFires el p tg t =
           (if el = element j \<and> p = ''opacity'' \<and> tg = Some (element j) then cleanup (timeout j) t else t)"
  using assms
  by (simp add: oneJob_def transitionendFires_def transitionendListener_def)

lemma step_callback_idle:
  assumes "oneJob t" and "activeTransition t = None" and "isCallback b"
  shows "step b t = t"
  using assms by (cases b) (simp_all add: timeoutFires_idle transitionendFires_idle)

lemma step_callback_other:
  assumes "oneJob t" and "activeTransition t = Some j" and "isCallback b"
    and "\<not> completes (element j) (timeout j) b"
  shows "step b t = t"
  using assms
  by (cases b) (auto simp add: completes_def timeoutFires_other transitionendFires_active)

lemma step_callback_completes:
  assumes "oneJob t" and "activeTransition t = Some j" and "completes (element j) (timeout j) b"
  shows "step b t = cleanup (timeout j) t"
  using assms
  by (auto simp add: completes_def timeoutFires_active cleanup_active transitionendFires_active)

lemma run_Nil [simp]: "run [] s = s"
  by (simp add: run_def)

lemma run_Cons [simp]: "run (a # as) s = run as (step a s)"
  by (simp add: run_def)

lemma run_callbacks_idle:
  assumes "oneJob t" and "activeTransition t = None"
  shows "list_all isCallback bs \<Longrightarrow> run bs t = t"
  by (induction bs) (simp_all add: step_callback_idle [OF assms])

lemma oneJob_after_cleanup:
  assumes "oneJob t" and "activeTransition t = Some j"
  shows "oneJob (cleanup (timeout j) t)" and "activeTransition (cleanup (timeout j) t) = None"
  by (simp_all add: cleanup_active [OF assms] oneJob_def)

lemma run_callbacks_active:
  assumes "oneJob t" and "activeTransition t = Some j"
  shows "list_all isCallback bs \<Longrightarrow>
         run bs t = (if list_ex (completes (element j) (timeout j)) bs then cleanup (timeout j) t else t)"
proof (induction bs)
  case Nil
  then show ?case by simp
next
  case (Cons b bs)
  show ?case
  proof (cases "completes (element j) (timeout j) b")
    case True
    have "run bs (cleanup (timeout j) t) = cleanup (timeout j) t"
      using Cons.prems oneJob_after_cleanup [OF assms] by (simp add: run_callbacks_idle)
    then show ?thesis using True by (simp add: step_callback_completes [OF assms])
  next
    case False
    then have "step b t = t" using Cons.prems assms by (simp add: step_callback_other)
    then show ?thesis using False Cons by simp
  qed
qed

lemma recordEvent_job [simp]:
  "activeTransition (recordEvent e s) = activeTransition s"
  "timeouts (recordEvent e s) = timeouts s"
  "transitionendListeners (recordEvent e s) = transitionendListeners s"
  "closures (recordEvent e s) = closures s"
  "handles (recordEvent e s) = handles s"
  by (simp_all add: recordEvent_def)

lemma stopAutoSlide_job [simp]:
  "activeTransition (stopAutoSlide s) = activeTransition s"
  "timeouts (stopAutoSlide s) = timeouts s"
  "transitionendListeners (stopAutoSlide s) = transitionendListeners s"
  "closures (stopAutoSlide s) = closures s"
  by (simp_all add: stopAutoSlide_def clearInterval_def split: option.splits)

lemma startAutoSlide_job [simp]:
  "activeTransition (startAutoSlide s) = activeTransition s"
  "timeouts (startAutoSlide s) = timeouts s"
  "transitionendListeners (startAutoSlide s) = transitionendListeners s"
  "closures (startAutoSlide s) = closures s"
  by (simp_all add: startAutoSlide_def Let_def)

lemma oneJob_recordEvent [simp]: "oneJob (recordEvent e s) = oneJob s"
  by (rule oneJob_cong) simp_all

lemma oneJob_stopAutoSlide [simp]: "oneJob (stopAutoSlide s) = oneJob s"
  by (rule oneJob_cong) simp_all

lemma oneJob_startAutoSlide [simp]: "oneJob (startAutoSlide s) = oneJob s"
  by (rule oneJob_cong) simp_all

lemma oneJob_cleanupActiveTransition:
  "oneJob s \<Longrightarrow> oneJob (cleanupActiveTransition s) \<and> activeTransition (cleanupActiveTransition s) = None"
  by (auto simp add: oneJob_def cleanupActiveTransition_def browser_defs filter_only_key
      split: option.splits)

lemma idle_job:
  "oneJob s \<Longrightarrow> activeTransition s = None \<Longrightarrow> timeouts s = [] \<and> transitionendListeners s = []"
  by (simp add: oneJob_def)

lemma oneJob_onTransitionComplete: "oneJob s \<Longrightarrow> oneJob (onTransitionComplete s)"
  using oneJob_cleanupActiveTransition [of s]
  by (simp add: onTransitionComplete_def updateAccessibilityAttributes_def Let_def)

lemma oneJob_setupTransitionCompletion:
  "oneJob s \<Longrightarrow> activeTransition s = None \<Longrightarrow> oneJob (setupTransitionCompletion el v s)"
  by (simp add: oneJob_def setupTransitionCompletion_def addEventListener_def Let_def)

lemma oneJob_performTransition: "oneJob s \<Longrightarrow> oneJob (performTransition a b s)"
  using oneJob_cleanupActiveTransition [of s]
  by (simp add: performTransition_def transitionInstant_def applyCrossfadeTransition_def
      oneJob_onTransitionComplete oneJob_setupTransitionCompletion Let_def split: option.splits)

lemma oneJob_currentSlideIndex [simp]: "oneJob (s\<lparr>currentSlideIndex := i\<rparr>) = oneJob s"
  by (rule oneJob_cong) simp_all

lemma oneJob_slideIndex [simp]: "oneJob (s\<lparr>slideIndex := i\<rparr>) = oneJob s"
  by (rule oneJob_cong) simp_all

lemma oneJob_updateSlideVisibility: "oneJob s \<Longrightarrow> oneJob (updateSlideVisibility s)"
  by (simp add: updateSlideVisibility_def updateAccessibilityAttributes_def oneJob_performTransition Let_def)

lemma oneJob_nextSlide: "oneJob s \<Longrightarrow> oneJob (nextSlide s)"
  by (simp add: nextSlide_def oneJob_updateSlideVisibility)

lemma oneJob_prevSlide: "oneJob s \<Longrightarrow> oneJob (prevSlide s)"
  by (simp add: prevSlide_def oneJob_updateSlideVisibility)

lemma oneJob_goToSlide: "oneJob s \<Longrightarrow> oneJob (goToSlide n s)"
  by (simp add: goToSlide_def oneJob_updateSlideVisibility)

lemma oneJob_callback: "oneJob s \<Longrightarrow> isCallback b \<Longrightarrow> oneJob (step b s)"
proof (cases "activeTransition s")
  case None
  then show "oneJob s \<Longrightarrow> isCallback b \<Longrightarrow> oneJob (step b s)"
    by (simp add: step_callback_idle)
next
  case (Some j)
  show "oneJob s \<Longrightarrow> isCallback b \<Longrightarrow> oneJob (step b s)"
  proof (cases "completes (element j) (timeout j) b")
    case True
    then show "oneJob s \<Longrightarrow> isCallback b \<Longrightarrow> oneJob (step b s)"
      using Some by (simp add: step_callback_completes oneJob_after_cleanup)
  next
    case False
    then show "oneJob s \<Longrightarrow> isCallback b \<Longrightarrow> oneJob (step b s)"
      using Some by (simp add: step_callback_other)
  qed
qed

lemma oneJob_touch [simp]:
  "oneJob (s\<lparr>touchStartX := a\<rparr>) = oneJob s"
  "oneJob (s\<lparr>touchStartY := a\<rparr>) = oneJob s"
  "oneJob (s\<lparr>touchEndX := a\<rparr>) = oneJob s"
  "oneJob (s\<lparr>touchEndY := a\<rparr>) = oneJob s"
  "oneJob (s\<lparr>isDragging := b\<rparr>) = oneJob s"
  "oneJob (s\<lparr>isMouseOver := b\<rparr>) = oneJob s"
  "oneJob (s\<lparr>isPaused := b\<rparr>) = oneJob s"
  "oneJob (s\<lparr>isVisible := b\<rparr>) = oneJob s"
  by (simp_all add: oneJob_def split: option.splits)

lemma oneJob_processSwipeGesture: "oneJob s \<Longrightarrow> oneJob (processSwipeGesture s)"
  by (simp add: processSwipeGesture_def Let_def oneJob_nextSlide oneJob_prevSlide)

lemma oneJob_resetTouchState [simp]: "oneJob (resetTouchState s) = oneJob s"
  by (rule oneJob_cong) (simp_all add: resetTouchState_def)

lemma oneJob_handleReducedMotion [simp]: "oneJob (handleReducedMotion s) = oneJob s"
  by (rule oneJob_cong) (simp_all add: handleReducedMotion_def)

lemma oneJob_destroy: "oneJob s \<Longrightarrow> oneJob (destroy s)"
  using oneJob_cleanupActiveTransition [of "resetTouchState s"]
  by (simp add: destroy_def core_destroy_def transitions_destroy_def)

lemma oneJob_step: "oneJob s \<Longrightarrow> oneJob (step a s)"
proof (cases "isCallback a")
  case True
  then show "oneJob s \<Longrightarrow> oneJob (step a s)" by (simp add: oneJob_callback)
next
  case False
  then show "oneJob s \<Longrightarrow> oneJob (step a s)"
    by (cases a)
       (simp_all add: oneJob_nextSlide oneJob_prevSlide oneJob_goToSlide togglePause_def
          setVisibility_def intervalFires_def handlePointerDown_def
          handlePointerMove_def handlePointerUp_def oneJob_processSwipeGesture handleMouseEnter_def
          handleMouseLeave_def oneJob_destroy Let_def split: option.splits)
qed

lemma oneJob_run: "oneJob s \<Longrightarrow> oneJob (run as s)"
  by (induction as arbitrary: s) (simp_all add: oneJob_step)

lemma cleanup_wired [simp]:
  "transitionsBound (cleanup c s) = transitionsBound s"
  "transitionType (cleanup c s) = transitionType s"
  "dataset_transition (cleanup c s) = dataset_transition s"
  by (simp_all add: cleanup_def transitions_defs browser_defs Let_def split: option.splits)

lemma transitionendFires_preserves:
  assumes "\<And>c st. f (transitionendListener c pn t st) = f st"
  shows "f (transitionendFires el pn t s) = f s"
proof -
  have "f (fold (\<lambda>p st. if fst p = el \<and> p \<in> set (transitionendListeners st)
                   then transitionendListener (snd p) pn t st else st) xs s) = f s" for xs
    by (induction xs arbitrary: s) (simp_all add: assms)
  then show ?thesis by (simp add: transitionendFires_def)
qed

lemma transitionendFires_wired [simp]:
  "transitionsBound (transitionendFires el pn t s) = transitionsBound s"
  "transitionType (transitionendFires el pn t s) = transitionType s"
  "dataset_transition (transitionendFires el pn t s) = dataset_transition s"
  by (rule transitionendFires_preserves, simp add: transitionendListener_def split: option.splits)+

lemma wired_step: "wired s \<Longrightarrow> wired (step a s)"
  by (cases a)
     (simp_all add: wired_def togglePause_def setVisibility_def intervalFires_def timeoutFires_def
        clearTimeout_def handleReducedMotion_def transitionOrInstant_def handlePointerDown_def
        handlePointerMove_def handlePointerUp_def resetTouchState_def processSwipeGesture_def
        handleMouseEnter_def handleMouseLeave_def destroy_def core_destroy_def
        transitions_destroy_def cleanupActiveTransition_def removeEventListener_def Let_def
        split: option.splits)

lemma wired_run: "wired s \<Longrightarrow> wired (run as s)"
  by (induction as arbitrary: s) (simp_all add: wired_step)

lemma attached_run: "attached s \<Longrightarrow> list_all integralAction as \<Longrightarrow> attached (run as s)"
  by (simp add: attached_def settled_run wired_run oneJob_run)

lemma wired_VVJSSlideshow: "1 \<le> slides c \<Longrightarrow> wired (VVJSSlideshow c)"
  by (simp add: VVJSSlideshow_def initializeDeepLinking_def SlideshowEvents_def setVisibility_def
        applyReducedMotion_def SlideshowTransitions_def handleReducedMotion_def Let_def wired_def
        transitionOrInstant_def split: option.splits)

lemma oneJob_SlideshowCore: "oneJob (SlideshowCore c)"
  by (simp add: SlideshowCore_def updateSlideVisibility_def updateAccessibilityAttributes_def
      oneJob_def Let_def)

lemma SlideshowCore_job [simp]:
  "activeTransition (SlideshowCore c) = None"
  "timeouts (SlideshowCore c) = []"
  "transitionendListeners (SlideshowCore c) = []"
  by (simp_all add: SlideshowCore_def updateSlideVisibility_def updateAccessibilityAttributes_def Let_def)

lemma oneJob_VVJSSlideshow: "oneJob (VVJSSlideshow c)"
proof -
  have 1: "oneJob (SlideshowTransitions c (SlideshowCore c))"
    by (simp add: SlideshowTransitions_def handleReducedMotion_def oneJob_def Let_def)
  have 2: "oneJob (applyReducedMotion c s)" if "oneJob s" for s
    using that by (simp add: applyReducedMotion_def)
  have 3: "oneJob (setVisibility v s)" if "oneJob s" for s v
    using that by (simp add: setVisibility_def Let_def)
  have 4: "oneJob (SlideshowEvents c s)" if "oneJob s" for s
    using that by (simp add: SlideshowEvents_def oneJob_def split: option.splits)
  have 5: "oneJob (initializeDeepLinking c s)" if "oneJob s" for s
    using that by (simp add: initializeDeepLinking_def Let_def oneJob_goToSlide split: option.splits)
  show ?thesis
    by (simp add: VVJSSlideshow_def 1 2 3 4 5)
qed

lemma attached_VVJSSlideshow: "1 \<le> slides c \<Longrightarrow> attached (VVJSSlideshow c)"
  by (simp add: attached_def settled_VVJSSlideshow wired_VVJSSlideshow oneJob_VVJSSlideshow)

section \<open>Crossfade completion\<close>

lemma cleanupActiveTransition_frame [simp]:
  "handles (cleanupActiveTransition s) = handles s"
  "dispatched (cleanupActiveTransition s) = dispatched s"
  "transitionType (cleanupActiveTransition s) = transitionType s"
  "transitionDuration (cleanupActiveTransition s) = transitionDuration s"
  "totalSlides (cleanupActiveTransition s) = totalSlides s"
  "closures (cleanupActiveTransition s) = closures s"
  by (simp_all add: cleanupActiveTransition_def browser_defs split: option.splits)

lemma slideAt_cleanupActiveTransition [simp]: "slideAt (cleanupActiveTransition s) i = slideAt s i"
  by (simp add: slideAt_def split: jsnum.splits)

lemma performTransition_crossfade:
  assumes "oneJob s" and "isCrossfade (transitionType s)" and "slideAt s b = Some el"
  shows "activeTransition (performTransition a b s) =
           Some \<lparr>element = el, listener = Suc (handles s), timeout = Suc (handles s)\<rparr>"
    and "timeouts (performTransition a b s) = [(Suc (handles s), totalDuration s + 100)]"
    and "transitionendListeners (performTransition a b s) = [(el, Suc (handles s))]"
    and "dispatched (performTransition a b s) = dispatched s"
    and "handles (performTransition a b s) = Suc (handles s)"
proof -
  have idle: "timeouts (cleanupActiveTransition s) = []"
    "transitionendListeners (cleanupActiveTransition s) = []"
    using oneJob_cleanupActiveTransition [OF assms(1)] idle_job by blast+
  have pt: "performTransition a b s =
      setupTransitionCompletion el
        (if transitionType s = ''crossfade-classic'' then ''classic''
         else if transitionType s = ''crossfade-staged'' then ''staged'' else ''dynamic'')
        (cleanupActiveTransition s)"
    using assms(2,3)
    by (auto simp add: performTransition_def applyCrossfadeTransition_def isCrossfade_def Let_def)
  show "activeTransition (performTransition a b s) =
           Some \<lparr>element = el, listener = Suc (handles s), timeout = Suc (handles s)\<rparr>"
    unfolding pt by (simp add: setupTransitionCompletion_def addEventListener_def Let_def)
  show "timeouts (performTransition a b s) = [(Suc (handles s), totalDuration s + 100)]"
    unfolding pt using assms(2) idle
    by (auto simp add: setupTransitionCompletion_def addEventListener_def totalDuration_def
        isCrossfade_def Let_def)
  show "transitionendListeners (performTransition a b s) = [(el, Suc (handles s))]"
    unfolding pt using idle by (simp add: setupTransitionCompletion_def addEventListener_def Let_def)
  show "dispatched (performTransition a b s) = dispatched s"
    using assms by (simp add: dispatched_performTransition)
  show "handles (performTransition a b s) = Suc (handles s)"
    unfolding pt by (simp add: setupTransitionCompletion_def addEventListener_def Let_def)
qed

lemma count_append [simp]:
  "transitionCompleteCount (s\<lparr>dispatched := dispatched s @ es\<rparr>) =
     transitionCompleteCount s + length (filter isTransitionComplete es)"
  "slideChangedCount (s\<lparr>dispatched := dispatched s @ es\<rparr>) =
     slideChangedCount s + length (filter isSlideChanged es)"
  "slideChangingCount (s\<lparr>dispatched := dispatched s @ es\<rparr>) =
     slideChangingCount s + length (filter isSlideChanging es)"
  by (simp_all add: transitionCompleteCount_def slideChangedCount_def slideChangingCount_def)

lemma counts_cleanup_active:
  assumes "oneJob t" and "activeTransition t = Some j"
  shows "transitionCompleteCount (cleanup (timeout j) t) = transitionCompleteCount t + 1"
    and "slideChangedCount (cleanup (timeout j) t) = slideChangedCount t + 1"
    and "slideChangingCount (cleanup (timeout j) t) = slideChangingCount t"
    and "timeouts (cleanup (timeout j) t) = []"
    and "transitionendListeners (cleanup (timeout j) t) = []"
  by (simp_all add: cleanup_active [OF assms] transitionCompleteCount_def slideChangedCount_def
      slideChangingCount_def)

text \<open>Whatever callbacks the browser delivers while a transition is active, the completion
  is signalled once if one of them completes it, and not at all otherwise.\<close>

lemma callbacks_signal_once:
  assumes "oneJob t" and "activeTransition t = Some j" and "list_all isCallback bs"
  shows "transitionCompleteCount (run bs t) =
           transitionCompleteCount t + (if list_ex (completes (element j) (timeout j)) bs then 1 else 0)"
    and "slideChangedCount (run bs t) =
           slideChangedCount t + (if list_ex (completes (element j) (timeout j)) bs then 1 else 0)"
    and "list_ex (completes (element j) (timeout j)) bs \<Longrightarrow>
           timeouts (run bs t) = [] \<and> transitionendListeners (run bs t) = []"
  using run_callbacks_active [OF assms] counts_cleanup_active [OF assms(1,2)] by simp_all

lemma crossfadeContainer_attached [simp]:
  "transitionType (VVJSSlideshow crossfadeContainer) = ''crossfade-classic''"
  "handles (VVJSSlideshow crossfadeContainer) = 2"
  "slideIndex (VVJSSlideshow crossfadeContainer) = Num 1"
  "transitionDuration (VVJSSlideshow crossfadeContainer) = 600"
  "dispatched (VVJSSlideshow crossfadeContainer) =
     [SlideChanging (Num 1) (Num 1), AutoSlideStarted, AutoSlideStopped, AutoSlideStarted]"
  by (simp_all add: crossfadeContainer_def attach_defs browser_defs Let_def)

lemma crossfadeContainer_slides [simp]:
  "slides crossfadeContainer = 3"
  "data_enableLooping crossfadeContainer = None"
  by (simp_all add: crossfadeContainer_def)

lemma performTransition_supersedes:
  assumes "oneJob t" and "isCrossfade (transitionType t)"
    and "activeTransition t = Some \<lparr>element = el, listener = h, timeout = h\<rparr>" and "handles t = h"
  shows "dispatched (performTransition a b t) = dispatched t"
    and "h \<notin> fst ` set (timeouts (performTransition a b t))"
    and "(el, h) \<notin> set (transitionendListeners (performTransition a b t))"
proof -
  show "dispatched (performTransition a b t) = dispatched t"
    using assms(2) by (simp add: dispatched_performTransition)
  show "h \<notin> fst ` set (timeouts (performTransition a b t))"
  proof (cases "slideAt t b")
    case None
    then have "performTransition a b t = cleanupActiveTransition t"
      by (simp add: performTransition_def Let_def)
    then show ?thesis using oneJob_cleanupActiveTransition [OF assms(1)] idle_job by fastforce
  next
    case (Some el2)
    show ?thesis using performTransition_crossfade(2) [OF assms(1,2) Some] assms(4) by simp
  qed
  show "(el, h) \<notin> set (transitionendListeners (performTransition a b t))"
  proof (cases "slideAt t b")
    case None
    then have "performTransition a b t = cleanupActiveTransition t"
      by (simp add: performTransition_def Let_def)
    then show ?thesis using oneJob_cleanupActiveTransition [OF assms(1)] idle_job by fastforce
  next
    case (Some el2)
    show ?thesis using performTransition_crossfade(3) [OF assms(1,2) Some] assms(4) by simp
  qed
qed

lemma transitionCompleteCount_cong:
  "filter isTransitionComplete (dispatched t) = filter isTransitionComplete (dispatched s) \<Longrightarrow>
   transitionCompleteCount t = transitionCompleteCount s"
  by (simp add: transitionCompleteCount_def)

lemma destroy_cancels:
  assumes "oneJob t"
  shows "transitionCompleteCount (destroy t) = transitionCompleteCount t"
    and "timeouts (destroy t) = []" and "transitionendListeners (destroy t) = []"
proof -
  have "oneJob (resetTouchState t)" using assms by simp
  from oneJob_cleanupActiveTransition [OF this]
  have "timeouts (cleanupActiveTransition (resetTouchState t)) = [] \<and>
        transitionendListeners (cleanupActiveTransition (resetTouchState t)) = []"
    using idle_job by blast
  then show "timeouts (destroy t) = []" and "transitionendListeners (destroy t) = []"
    by (simp_all add: destroy_def core_destroy_def transitions_destroy_def)
  show "transitionCompleteCount (destroy t) = transitionCompleteCount t"
    by (rule transitionCompleteCount_cong)
       (simp add: destroy_def core_destroy_def transitions_destroy_def stopAutoSlide_def
          resetTouchState_def clearInterval_def recordEvent_def split: option.splits)
qed

text \<open>
  Claim C7, as amended. Let \<open>performTransition\<close> start a crossfade towards an
  existing slide while at most one transition is in flight. The call itself signals no
  completion; it arms the fallback timeout at the variant's total duration plus 100 ms
  and registers the listener on the incoming slide, and nothing else is pending. However
  the browser then delivers timeouts and \<open>transitionend\<close> events, the completion
  signal is dispatched exactly once if the fallback timeout or an opacity
  \<open>transitionend\<close> of the watched slide is among them, and not at all otherwise; after
  the first of the two, no timeout and no listener is left. A later
  \<open>performTransition\<close>, or \<open>destroy\<close>, that comes first disarms both without any
  completion signal.
\<close>

theorem completion_signalled_at_most_once:
  assumes "oneJob s" and "isCrossfade (transitionType s)" and "slideAt s toIndex = Some el"
  shows "transitionCompleteCount (performTransition fromIndex toIndex s) = transitionCompleteCount s \<and>
     timeouts (performTransition fromIndex toIndex s) = [(Suc (handles s), totalDuration s + 100)] \<and>
     transitionendListeners (performTransition fromIndex toIndex s) = [(el, Suc (handles s))] \<and>
     (\<forall>bs. list_all isCallback bs \<longrightarrow>
        transitionCompleteCount (run bs (performTransition fromIndex toIndex s)) =
          transitionCompleteCount s + (if list_ex (completes el (Suc (handles s))) bs then 1 else 0) \<and>
        (list_ex (completes el (Suc (handles s))) bs \<longrightarrow>
           timeouts (run bs (performTransition fromIndex toIndex s)) = [] \<and>
           transitionendListeners (run bs (performTransition fromIndex toIndex s)) = [])) \<and>
     (\<forall>a b. transitionCompleteCount (performTransition a b (performTransition fromIndex toIndex s)) =
              transitionCompleteCount s \<and>
            Suc (handles s) \<notin> fst ` set (timeouts (performTransition a b (performTransition fromIndex toIndex s))) \<and>
            (el, Suc (handles s)) \<notin>
              set (transitionendListeners (performTransition a b (performTransition fromIndex toIndex s)))) \<and>
     transitionCompleteCount (destroy (performTransition fromIndex toIndex s)) = transitionCompleteCount s \<and>
     timeouts (destroy (performTransition fromIndex toIndex s)) = [] \<and>
     transitionendListeners (destroy (performTransition fromIndex toIndex s)) = []"
proof -
  let ?t = "performTransition fromIndex toIndex s"
  let ?h = "Suc (handles s)"
  note pt = performTransition_crossfade [OF assms, of fromIndex]
  have job: "oneJob ?t" using assms(1) by (rule oneJob_performTransition)
  have cf: "isCrossfade (transitionType ?t)" using assms(2) by simp
  have cnt: "transitionCompleteCount ?t = transitionCompleteCount s"
    using pt(4) by (simp add: transitionCompleteCount_def)
  have cb: "transitionCompleteCount (run bs ?t) =
          transitionCompleteCount s + (if list_ex (completes el ?h) bs then 1 else 0) \<and>
        (list_ex (completes el ?h) bs \<longrightarrow>
           timeouts (run bs ?t) = [] \<and> transitionendListeners (run bs ?t) = [])"
    if "list_all isCallback bs" for bs
    using callbacks_signal_once [OF job pt(1) that] cnt by simp
  have sup: "transitionCompleteCount (performTransition a b ?t) = transitionCompleteCount s \<and>
            ?h \<notin> fst ` set (timeouts (performTransition a b ?t)) \<and>
            (el, ?h) \<notin> set (transitionendListeners (performTransition a b ?t))" for a b
    using performTransition_supersedes [OF job cf pt(1) pt(5), of a b] cnt
    by (simp add: transitionCompleteCount_def)
  show ?thesis
    using cnt pt(2,3) cb sup destroy_cancels [OF job] by simp
qed

lemma slideAt_crossfadeContainer [simp]:
  "slideAt (VVJSSlideshow crossfadeContainer) (Num 2) = Some 1"
  by (simp add: slideAt_def)

theorem completion_signalled_at_most_once_witness:
  "oneJob (VVJSSlideshow crossfadeContainer) \<and>
   isCrossfade (transitionType (VVJSSlideshow crossfadeContainer)) \<and>
   slideAt (VVJSSlideshow crossfadeContainer) (Num 2) = Some 1 \<and>
   timeouts (performTransition (Num 1) (Num 2) (VVJSSlideshow crossfadeContainer)) = [(3, 700)] \<and>
   transitionendListeners (performTransition (Num 1) (Num 2) (VVJSSlideshow crossfadeContainer)) = [(1, 3)] \<and>
   transitionCompleteCount (performTransition (Num 1) (Num 2) (VVJSSlideshow crossfadeContainer)) = 0 \<and>
   transitionCompleteCount
     (run [TransitionendFires 1 ''width'' (Some 1), TransitionendFires 1 ''opacity'' (Some 1), TimeoutFires 3]
        (performTransition (Num 1) (Num 2) (VVJSSlideshow crossfadeContainer))) = 1"
proof -
  have a: "oneJob (VVJSSlideshow crossfadeContainer)" by (rule oneJob_VVJSSlideshow)
  have b: "isCrossfade (transitionType (VVJSSlideshow crossfadeContainer))"
    by (simp add: isCrossfade_def)
  have c: "slideAt (VVJSSlideshow crossfadeContainer) (Num 2) = Some 1" by simp
  have z: "transitionCompleteCount (VVJSSlideshow crossfadeContainer) = 0"
    by (simp add: transitionCompleteCount_def)
  have cb: "list_all isCallback
      [TransitionendFires 1 ''width'' (Some 1), TransitionendFires 1 ''opacity'' (Some 1), TimeoutFires 3]"
    by simp
  note inst = completion_signalled_at_most_once [OF a b c, of "Num 1"]
  have n: "transitionCompleteCount
     (run [TransitionendFires 1 ''width'' (Some 1), TransitionendFires 1 ''opacity'' (Some 1), TimeoutFires 3]
        (performTransition (Num 1) (Num 2) (VVJSSlideshow crossfadeContainer))) = 1"
    using inst [THEN conjunct2, THEN conjunct2, THEN conjunct2, THEN conjunct1, THEN spec,
        of "[TransitionendFires 1 ''width'' (Some 1), TransitionendFires 1 ''opacity'' (Some 1), TimeoutFires 3]"]
      z
    by (simp add: completes_def del: run_Cons run_Nil)
  have m: "timeouts (performTransition (Num 1) (Num 2) (VVJSSlideshow crossfadeContainer)) = [(3, 700)]"
    "transitionendListeners (performTransition (Num 1) (Num 2) (VVJSSlideshow crossfadeContainer)) = [(1, 3)]"
    "transitionCompleteCount (performTransition (Num 1) (Num 2) (VVJSSlideshow crossfadeContainer)) = 0"
    using inst [THEN conjunct1] inst [THEN conjunct2, THEN conjunct1]
      inst [THEN conjunct2, THEN conjunct2, THEN conjunct1] z
    by (simp_all add: totalDuration_def)
  show ?thesis using a b c n m by simp
qed

text \<open>
  Claim C7 as stated fails: on three crossfading slides \<open>performTransition\<close> starts a
  transition to slide 2 (timeout 3) and, before it ends, one to slide 3 (timeout 4). Both
  timeouts and the opacity \<open>transitionend\<close> of both slides are then delivered, and
  the completion signal has been dispatched once for the two transitions: the first
  produced none.
\<close>

theorem superseded_transition_signals_nothing:
  "transitionCompleteCount (VVJSSlideshow crossfadeContainer) = 0 \<and>
   timeouts (performTransition (Num 1) (Num 2) (VVJSSlideshow crossfadeContainer)) = [(3, 700)] \<and>
   timeouts (performTransition (Num 2) (Num 3)
      (performTransition (Num 1) (Num 2) (VVJSSlideshow crossfadeContainer))) = [(4, 700)] \<and>
   transitionCompleteCount
     (run [TimeoutFires 3, TransitionendFires 1 ''opacity'' (Some 1),
           TimeoutFires 4, TransitionendFires 2 ''opacity'' (Some 2)]
        (performTransition (Num 2) (Num 3)
           (performTransition (Num 1) (Num 2) (VVJSSlideshow crossfadeContainer)))) = 1"
proof -
  let ?s0 = "VVJSSlideshow crossfadeContainer"
  let ?s1 = "performTransition (Num 1) (Num 2) ?s0"
  let ?s2 = "performTransition (Num 2) (Num 3) ?s1"
  have j0: "oneJob ?s0" by (rule oneJob_VVJSSlideshow)
  have c0: "isCrossfade (transitionType ?s0)" by (simp add: isCrossfade_def)
  have z: "transitionCompleteCount ?s0 = 0" by (simp add: transitionCompleteCount_def)
  note p1 = performTransition_crossfade [OF j0 c0 slideAt_crossfadeContainer, of "Num 1"]
  have j1: "oneJob ?s1" using j0 by (rule oneJob_performTransition)
  have c1: "isCrossfade (transitionType ?s1)" using c0 by simp
  have a1: "slideAt ?s1 (Num 3) = Some 2" by (simp add: slideAt_def)
  note p2 = performTransition_crossfade [OF j1 c1 a1, of "Num 2"]
  have j2: "oneJob ?s2" using j1 by (rule oneJob_performTransition)
  have act: "activeTransition ?s2 = Some \<lparr>element = 2, listener = 4, timeout = 4\<rparr>"
    using p2(1) p1(5) by simp
  have cnt: "transitionCompleteCount ?s2 = 0"
    using p2(4) p1(4) z by (simp add: transitionCompleteCount_def)
  have cb: "list_all isCallback [TimeoutFires 3, TransitionendFires 1 ''opacity'' (Some 1),
           TimeoutFires 4, TransitionendFires 2 ''opacity'' (Some 2)]" by simp
  have "transitionCompleteCount
     (run [TimeoutFires 3, TransitionendFires 1 ''opacity'' (Some 1),
           TimeoutFires 4, TransitionendFires 2 ''opacity'' (Some 2)] ?s2) = 1"
    using callbacks_signal_once(1) [OF j2 act cb] cnt by (simp add: completes_def)
  moreover have "timeouts ?s1 = [(3, 700)]" using p1(2) by (simp add: totalDuration_def)
  moreover have "timeouts ?s2 = [(4, 700)]" using p2(2) p1(5) by (simp add: totalDuration_def)
  ultimately show ?thesis using z by simp
qed

section \<open>Slide-changed notifications\<close>

lemma attached_step: "attached s \<Longrightarrow> integralAction a \<Longrightarrow> attached (step a s)"
  by (simp add: attached_def settled_step wired_step oneJob_step)

lemma slideAt_of_int:
  "1 \<le> n \<Longrightarrow> n \<le> int (totalSlides s) \<Longrightarrow> slideAt s (Num (of_int n)) = Some (nat (n - 1))"
  by (simp add: slideAt_def)

lemma successful_navigation_target:
  assumes "settled s" and "successfulNavigation a s" and "integralAction a"
  shows "\<exists>n. 1 \<le> n \<and> n \<le> int (totalSlides s) \<and>
             step a s = updateSlideVisibility (s\<lparr>slideIndex := Num (of_int n)\<rparr>)"
proof -
  from assms(1) obtain i where i: "slideIndex s = Num (of_int i)" "1 \<le> i" "i \<le> int (totalSlides s)"
    by (rule settled_index)
  show ?thesis
  proof (cases a)
    case NextSlide
    show ?thesis
    proof (cases "loopingEnabled s")
      case True
      have pos: "0 < totalSlides s" using i by simp
      have "js_rem (Num (of_int i)) (Num (real (totalSlides s))) = Num (of_int (i mod int (totalSlides s)))"
        using i pos by (intro js_rem_slides) simp_all
      then have "step a s = updateSlideVisibility (s\<lparr>slideIndex := Num (of_int (i mod int (totalSlides s) + 1))\<rparr>)"
        using NextSlide True i by (simp add: nextSlide_def)
      moreover have "1 \<le> i mod int (totalSlides s) + 1 \<and> i mod int (totalSlides s) + 1 \<le> int (totalSlides s)"
      proof -
        have "0 < int (totalSlides s)" using i by simp
        then have "0 \<le> i mod int (totalSlides s)" "i mod int (totalSlides s) < int (totalSlides s)"
          by simp_all
        then show ?thesis by simp
      qed
      ultimately show ?thesis by blast
    next
      case False
      then have "i < int (totalSlides s)" using assms(2) NextSlide i by simp
      moreover have "step a s = updateSlideVisibility (s\<lparr>slideIndex := Num (of_int (i + 1))\<rparr>)"
        using NextSlide False i assms(2) by (simp add: nextSlide_def)
      ultimately show ?thesis using i by (intro exI [of _ "i + 1"]) simp
    qed
  next
    case PrevSlide
    show ?thesis
    proof (cases "loopingEnabled s")
      case True
      show ?thesis
      proof (cases "i = 1")
        case True
        then have "step a s = updateSlideVisibility (s\<lparr>slideIndex := Num (of_int (int (totalSlides s)))\<rparr>)"
          using PrevSlide \<open>loopingEnabled s\<close> i by (simp add: prevSlide_def)
        then show ?thesis using i by (intro exI [of _ "int (totalSlides s)"]) simp
      next
        case False
        then have "step a s = updateSlideVisibility (s\<lparr>slideIndex := Num (of_int (i - 1))\<rparr>)"
          using PrevSlide \<open>loopingEnabled s\<close> i by (simp add: prevSlide_def)
        then show ?thesis using i False by (intro exI [of _ "i - 1"]) simp
      qed
    next
      case False
      then have "1 < i" using assms(2) PrevSlide i by simp
      moreover have "step a s = updateSlideVisibility (s\<lparr>slideIndex := Num (of_int (i - 1))\<rparr>)"
        using PrevSlide False i assms(2) by (simp add: prevSlide_def)
      ultimately show ?thesis using i by (intro exI [of _ "i - 1"]) simp
    qed
  next
    case (GoToSlide m)
    then have "isInteger m" using assms(2,3) by (cases m) simp_all
    then obtain n where m: "m = Num (of_int n)" by (rule isInteger_obtain)
    then have "(1::real) \<le> of_int n" "(of_int n :: real) \<le> real (totalSlides s)"
      using assms(2) GoToSlide by simp_all
    then have n: "1 \<le> n" "n \<le> int (totalSlides s)" by linarith+
    have "step a s = updateSlideVisibility (s\<lparr>slideIndex := Num (of_int n)\<rparr>)"
      using GoToSlide m n by (simp add: goToSlide_def)
    then show ?thesis using n by blast
  qed (use assms(2) in simp_all)
qed

lemma crossfade_navigation_at:
  assumes "tracked s" and "wired s" and "oneJob s" and "isCrossfade (transitionType s)"
    and "slideAt s m = Some el"
  shows "dispatched (updateSlideVisibility (s\<lparr>slideIndex := m\<rparr>)) =
           dispatched s @ [SlideChanging (slideIndex s) m]"
    and "activeTransition (updateSlideVisibility (s\<lparr>slideIndex := m\<rparr>)) =
           Some \<lparr>element = el, listener = Suc (handles s), timeout = Suc (handles s)\<rparr>"
    and "handles (updateSlideVisibility (s\<lparr>slideIndex := m\<rparr>)) = Suc (handles s)"
proof -
  let ?s1 = "recordEvent (SlideChanging (currentSlideIndex s) m) (s\<lparr>slideIndex := m\<rparr>)"
  have cur: "currentSlideIndex s = slideIndex s" and bound: "transitionsBound s"
    and ty: "transitionOrInstant (dataset_transition s) = transitionType s"
    using assms(1,2) by (simp_all add: tracked_def wired_def)
  have notinst: "transitionType s \<noteq> ''instant''"
    using assms(4) by (auto simp add: isCrossfade_def)
  have j: "oneJob ?s1" using assms(3) by simp
  have c: "isCrossfade (transitionType ?s1)" using assms(4) by simp
  have a: "slideAt ?s1 m = Some el"
    using assms(5) by (cases m) (simp_all add: slideAt_def)
  note p = performTransition_crossfade [OF j c a, of "currentSlideIndex s"]
  show "dispatched (updateSlideVisibility (s\<lparr>slideIndex := m\<rparr>)) =
           dispatched s @ [SlideChanging (slideIndex s) m]"
    using bound ty notinst cur p(4) by (simp add: updateSlideVisibility_def Let_def)
  show "activeTransition (updateSlideVisibility (s\<lparr>slideIndex := m\<rparr>)) =
           Some \<lparr>element = el, listener = Suc (handles s), timeout = Suc (handles s)\<rparr>"
    using bound ty notinst p(1) by (simp add: updateSlideVisibility_def Let_def)
  show "handles (updateSlideVisibility (s\<lparr>slideIndex := m\<rparr>)) = Suc (handles s)"
    using bound ty notinst p(5) by (simp add: updateSlideVisibility_def Let_def)
qed

lemma crossfade_navigation:
  assumes "attached s" and "isCrossfade (transitionType s)"
    and "1 \<le> n" and "n \<le> int (totalSlides s)"
  shows "dispatched (updateSlideVisibility (s\<lparr>slideIndex := Num (of_int n)\<rparr>)) =
           dispatched s @ [SlideChanging (slideIndex s) (Num (of_int n))]"
    and "activeTransition (updateSlideVisibility (s\<lparr>slideIndex := Num (of_int n)\<rparr>)) =
           Some \<lparr>element = nat (n - 1), listener = Suc (handles s), timeout = Suc (handles s)\<rparr>"
    and "handles (updateSlideVisibility (s\<lparr>slideIndex := Num (of_int n)\<rparr>)) = Suc (handles s)"
proof -
  have t: "tracked s" "wired s" "oneJob s"
    using assms(1) by (simp_all add: attached_def settled_def tracked_def)
  have a: "slideAt s (Num (of_int n)) = Some (nat (n - 1))"
    using assms(3,4) by (rule slideAt_of_int)
  show "dispatched (updateSlideVisibility (s\<lparr>slideIndex := Num (of_int n)\<rparr>)) =
           dispatched s @ [SlideChanging (slideIndex s) (Num (of_int n))]"
    using t assms(2) a by (rule crossfade_navigation_at(1))
  show "activeTransition (updateSlideVisibility (s\<lparr>slideIndex := Num (of_int n)\<rparr>)) =
           Some \<lparr>element = nat (n - 1), listener = Suc (handles s), timeout = Suc (handles s)\<rparr>"
    using t assms(2) a by (rule crossfade_navigation_at(2))
  show "handles (updateSlideVisibility (s\<lparr>slideIndex := Num (of_int n)\<rparr>)) = Suc (handles s)"
    using t assms(2) a by (rule crossfade_navigation_at(3))
qed

text \<open>
  Claim C1, as amended. In any state an attached slideshow with at least one slide can
  reach and in which the current index is an integer within \<open>[1, totalSlides]\<close> (as
  it is unless \<open>goToSlide\<close> has been handed a fraction), with a crossfade
  transition type, a successful navigation call (\<open>nextSlide\<close>, \<open>prevSlide\<close>, or
  \<open>goToSlide\<close> of an integer within range) dispatches exactly one slide-changing
  notification and no slide-changed notification itself, and leaves a transition in
  flight. Whatever callbacks the browser then delivers, exactly one slide-changed
  notification is dispatched if the fallback timeout or the opacity \<open>transitionend\<close>
  of that transition is among them, and none otherwise. When a second successful
  navigation call comes first, the two calls together are followed by at most one
  slide-changed notification. The instant type is left out of this statement.
\<close>

theorem crossfade_navigation_notifies_on_completion:
  assumes "1 \<le> slides c" and "s = run as (VVJSSlideshow c)"
    and "isCrossfade (transitionType s)" and "successfulNavigation a s"
    and "indexInRange s" and "isInteger (slideIndex s)" and "integralAction a"
  shows "slideChangingCount (step a s) = slideChangingCount s + 1 \<and>
         slideChangedCount (step a s) = slideChangedCount s \<and>
         (\<exists>j. activeTransition (step a s) = Some j \<and>
              (\<forall>bs. list_all isCallback bs \<longrightarrow>
                 slideChangedCount (run bs (step a s)) =
                   slideChangedCount s + (if list_ex (completes (element j) (timeout j)) bs then 1 else 0))) \<and>
         (\<forall>b bs. successfulNavigation b (step a s) \<and> integralAction b \<and> list_all isCallback bs \<longrightarrow>
              slideChangingCount (run bs (step b (step a s))) = slideChangingCount s + 2 \<and>
              slideChangedCount (run bs (step b (step a s))) \<le> slideChangedCount s + 1)"
proof -
  have "tracked s" using assms(1,2) by (simp add: tracked_run tracked_VVJSSlideshow)
  moreover have "wired s" using assms(1,2) by (simp add: wired_run wired_VVJSSlideshow)
  moreover have "oneJob s" using assms(2) by (simp add: oneJob_run oneJob_VVJSSlideshow)
  ultimately have att: "attached s"
    using assms(5,6) by (simp add: attached_def settled_def tracked_def del: isInteger.simps)
  have nav: "slideChangingCount (step a t) = slideChangingCount t + 1 \<and>
             slideChangedCount (step a t) = slideChangedCount t \<and>
             (\<exists>j. activeTransition (step a t) = Some j \<and>
                (\<forall>bs. list_all isCallback bs \<longrightarrow>
                   slideChangingCount (run bs (step a t)) = slideChangingCount t + 1 \<and>
                   slideChangedCount (run bs (step a t)) =
                     slideChangedCount t + (if list_ex (completes (element j) (timeout j)) bs then 1 else 0)))"
    if t: "attached t" "isCrossfade (transitionType t)" "successfulNavigation a t" "integralAction a"
    for a t
  proof -
    obtain n where n: "1 \<le> n" "n \<le> int (totalSlides t)"
      "step a t = updateSlideVisibility (t\<lparr>slideIndex := Num (of_int n)\<rparr>)"
      using successful_navigation_target [of t a] t by (auto simp add: attached_def)
    note cn = crossfade_navigation [OF t(1,2) n(1,2)]
    have c1: "slideChangingCount (step a t) = slideChangingCount t + 1"
      "slideChangedCount (step a t) = slideChangedCount t"
      using cn(1) n(3) by (simp_all add: slideChangingCount_def slideChangedCount_def)
    have job: "oneJob (step a t)" using t(1) by (simp add: attached_def oneJob_step)
    have act: "activeTransition (step a t) =
        Some \<lparr>element = nat (n - 1), listener = Suc (handles t), timeout = Suc (handles t)\<rparr>"
      using cn(2) n(3) by simp
    have "slideChangingCount (run bs (step a t)) = slideChangingCount t + 1 \<and>
          slideChangedCount (run bs (step a t)) =
            slideChangedCount t + (if list_ex (completes (nat (n - 1)) (Suc (handles t))) bs then 1 else 0)"
      if "list_all isCallback bs" for bs
      using callbacks_signal_once(2) [OF job act that] run_callbacks_active [OF job act that]
        counts_cleanup_active(3) [OF job act] c1 by simp
    then show ?thesis using c1 act by simp
  qed
  note first = nav [OF att assms(3,4,7)]
  have att': "attached (step a s)" using att assms(7) by (rule attached_step)
  have cf': "isCrossfade (transitionType (step a s))"
    using assms(3,4) by (cases a) simp_all
  have second: "slideChangingCount (run bs (step b (step a s))) = slideChangingCount s + 2 \<and>
              slideChangedCount (run bs (step b (step a s))) \<le> slideChangedCount s + 1"
    if "successfulNavigation b (step a s)" "integralAction b" "list_all isCallback bs" for b bs
    using nav [OF att' cf' that(1,2)] that(3) first by auto
  show ?thesis using first second by blast
qed

theorem crossfade_navigation_notifies_on_completion_witness:
  "1 \<le> slides crossfadeContainer \<and>
   isCrossfade (transitionType (run [] (VVJSSlideshow crossfadeContainer))) \<and>
   successfulNavigation NextSlide (run [] (VVJSSlideshow crossfadeContainer)) \<and>
   indexInRange (run [] (VVJSSlideshow crossfadeContainer)) \<and>
   isInteger (slideIndex (run [] (VVJSSlideshow crossfadeContainer))) \<and>
   integralAction NextSlide \<and>
   slideChangingCount (step NextSlide (run [] (VVJSSlideshow crossfadeContainer))) = 2 \<and>
   slideChangedCount (step NextSlide (run [] (VVJSSlideshow crossfadeContainer))) = 0"
proof -
  have a: "1 \<le> slides crossfadeContainer" by simp
  have b: "isCrossfade (transitionType (run [] (VVJSSlideshow crossfadeContainer)))"
    by (simp add: isCrossfade_def)
  have c: "successfulNavigation NextSlide (run [] (VVJSSlideshow crossfadeContainer))" by simp
  have z: "slideChangingCount (VVJSSlideshow crossfadeContainer) = 1"
    "slideChangedCount (VVJSSlideshow crossfadeContainer) = 0"
    by (simp_all add: slideChangingCount_def slideChangedCount_def)
  have d: "indexInRange (run [] (VVJSSlideshow crossfadeContainer))"
    "isInteger (slideIndex (run [] (VVJSSlideshow crossfadeContainer)))"
    "integralAction NextSlide"
    by (simp_all add: indexInRange_def)
  from crossfade_navigation_notifies_on_completion [OF a refl b c d]
  have "slideChangingCount (step NextSlide (run [] (VVJSSlideshow crossfadeContainer))) =
          slideChangingCount (run [] (VVJSSlideshow crossfadeContainer)) + 1"
    "slideChangedCount (step NextSlide (run [] (VVJSSlideshow crossfadeContainer))) =
          slideChangedCount (run [] (VVJSSlideshow crossfadeContainer))"
    by blast+
  then show ?thesis using a b c d z by simp
qed

lemma nextSlide_target:
  assumes "loopingEnabled s" and "slideIndex s = Num (of_int i)" and "1 \<le> i" and "i < int (totalSlides s)"
  shows "nextSlide s = updateSlideVisibility (s\<lparr>slideIndex := Num (of_int (i + 1))\<rparr>)"
proof -
  have "js_rem (Num (of_int i)) (Num (real (totalSlides s))) = Num (of_int (i mod int (totalSlides s)))"
    using assms by (intro js_rem_slides) simp_all
  then show ?thesis using assms by (simp add: nextSlide_def)
qed

lemma superseded_navigation_counts:
  "slideChangingCount (VVJSSlideshow crossfadeContainer) = 1 \<and>
   slideChangedCount (VVJSSlideshow crossfadeContainer) = 0 \<and>
   slideChangingCount
     (run [NextSlide, NextSlide, TimeoutFires 3, TransitionendFires 1 ''opacity'' (Some 1),
           TimeoutFires 4, TransitionendFires 2 ''opacity'' (Some 2)]
        (VVJSSlideshow crossfadeContainer)) = 3 \<and>
   slideChangedCount
     (run [NextSlide, NextSlide, TimeoutFires 3, TransitionendFires 1 ''opacity'' (Some 1),
           TimeoutFires 4, TransitionendFires 2 ''opacity'' (Some 2)]
        (VVJSSlideshow crossfadeContainer)) = 1"
proof -
  let ?s0 = "VVJSSlideshow crossfadeContainer"
  let ?s1 = "nextSlide ?s0"
  let ?s2 = "nextSlide ?s1"
  let ?bs = "[TimeoutFires 3, TransitionendFires 1 ''opacity'' (Some 1),
           TimeoutFires 4, TransitionendFires 2 ''opacity'' (Some 2)]"
  have z: "slideChangingCount ?s0 = 1" "slideChangedCount ?s0 = 0"
    by (simp_all add: slideChangingCount_def slideChangedCount_def)
  have att0: "attached ?s0" by (simp add: attached_VVJSSlideshow)
  have cf0: "isCrossfade (transitionType ?s0)" by (simp add: isCrossfade_def)
  have n1: "?s1 = updateSlideVisibility (?s0\<lparr>slideIndex := Num (of_int 2)\<rparr>)"
    using nextSlide_target [of ?s0 1] by simp
  have r1: "1 \<le> (2::int)" "(2::int) \<le> int (totalSlides ?s0)" by simp_all
  note c1 = crossfade_navigation [OF att0 cf0 r1]
  have d1: "dispatched ?s1 = dispatched ?s0 @ [SlideChanging (Num 1) (Num 2)]"
    and h1: "handles ?s1 = 3"
    using c1(1,3) n1 by simp_all
  have att1: "attached ?s1" using attached_step [OF att0, of NextSlide] by simp
  have cf1: "isCrossfade (transitionType ?s1)" using cf0 by simp
  have i1: "slideIndex ?s1 = Num 2" using n1 by simp
  have n2: "?s2 = updateSlideVisibility (?s1\<lparr>slideIndex := Num (of_int 3)\<rparr>)"
    using i1 nextSlide_target [of ?s1 2] by simp
  have r2: "1 \<le> (3::int)" "(3::int) \<le> int (totalSlides ?s1)" by simp_all
  note c2 = crossfade_navigation [OF att1 cf1 r2]
  have d2: "dispatched ?s2 = dispatched ?s0 @ [SlideChanging (Num 1) (Num 2), SlideChanging (Num 2) (Num 3)]"
    using c2(1) n2 d1 i1 by simp
  have act: "activeTransition ?s2 = Some \<lparr>element = 2, listener = 4, timeout = 4\<rparr>"
    using c2(2) n2 h1 by simp
  have job: "oneJob ?s2" using att1 by (simp add: attached_def oneJob_nextSlide)
  have cb: "list_all isCallback ?bs" by simp
  have ex: "list_ex (completes 2 4) ?bs" by (simp add: completes_def)
  have cnt2: "slideChangingCount ?s2 = 3" "slideChangedCount ?s2 = 0"
    using d2 z by (simp_all add: slideChangingCount_def slideChangedCount_def)
  have fin: "run ?bs ?s2 = cleanup 4 ?s2"
    using run_callbacks_active [OF job act cb] ex by simp
  have "slideChangedCount (run ?bs ?s2) = 1" "slideChangingCount (run ?bs ?s2) = 3"
    unfolding fin using counts_cleanup_active(2,3) [OF job act] cnt2 by simp_all
  then show ?thesis using z by simp
qed

lemma performTransition_no_slide:
  "slideAt s b = None \<Longrightarrow> performTransition a b s = cleanupActiveTransition s"
  by (simp add: performTransition_def Let_def)

lemma navigation_without_slide:
  assumes "tracked s" and "wired s" and "oneJob s" and "isCrossfade (transitionType s)"
    and "slideAt s m = None"
  shows "dispatched (updateSlideVisibility (s\<lparr>slideIndex := m\<rparr>)) =
           dispatched s @ [SlideChanging (slideIndex s) m]"
    and "activeTransition (updateSlideVisibility (s\<lparr>slideIndex := m\<rparr>)) = None"
    and "oneJob (updateSlideVisibility (s\<lparr>slideIndex := m\<rparr>))"
proof -
  let ?s1 = "recordEvent (SlideChanging (currentSlideIndex s) m) (s\<lparr>slideIndex := m\<rparr>)"
  have cur: "currentSlideIndex s = slideIndex s" and bound: "transitionsBound s"
    and ty: "transitionOrInstant (dataset_transition s) = transitionType s"
    using assms(1,2) by (simp_all add: tracked_def wired_def)
  have notinst: "transitionType s \<noteq> ''instant''"
    using assms(4) by (auto simp add: isCrossfade_def)
  have j: "oneJob ?s1" using assms(3) by simp
  have a: "slideAt ?s1 m = None"
    using assms(5) by (cases m) (simp_all add: slideAt_def)
  have p: "performTransition (currentSlideIndex s) m ?s1 = cleanupActiveTransition ?s1"
    using a by (rule performTransition_no_slide)
  show "dispatched (updateSlideVisibility (s\<lparr>slideIndex := m\<rparr>)) =
           dispatched s @ [SlideChanging (slideIndex s) m]"
    using bound ty notinst cur p by (simp add: updateSlideVisibility_def Let_def)
  show "activeTransition (updateSlideVisibility (s\<lparr>slideIndex := m\<rparr>)) = None"
    using bound ty notinst p oneJob_cleanupActiveTransition [OF j]
    by (simp add: updateSlideVisibility_def Let_def)
  show "oneJob (updateSlideVisibility (s\<lparr>slideIndex := m\<rparr>))"
    using assms(3) by (simp add: oneJob_updateSlideVisibility)
qed

lemma fractional_navigation_counts:
  "successfulNavigation (GoToSlide (Num (5 / 2))) (VVJSSlideshow crossfadeContainer) \<and>
   slideChangingCount (run [GoToSlide (Num (5 / 2))] (VVJSSlideshow crossfadeContainer)) = 2 \<and>
   slideChangedCount
     (run [GoToSlide (Num (5 / 2)), TimeoutFires 3, TransitionendFires 1 ''opacity'' (Some 1),
           TransitionendFires 2 ''opacity'' (Some 2)]
        (VVJSSlideshow crossfadeContainer)) = 0"
proof -
  let ?s0 = "VVJSSlideshow crossfadeContainer"
  let ?s1 = "goToSlide (Num (5 / 2)) ?s0"
  let ?bs = "[TimeoutFires 3, TransitionendFires 1 ''opacity'' (Some 1),
           TransitionendFires 2 ''opacity'' (Some 2)]"
  have z: "slideChangingCount ?s0 = 1" "slideChangedCount ?s0 = 0"
    by (simp_all add: slideChangingCount_def slideChangedCount_def)
  have att0: "attached ?s0" by (simp add: attached_VVJSSlideshow)
  then have t: "tracked ?s0" "wired ?s0" "oneJob ?s0"
    by (simp_all add: attached_def settled_def tracked_def)
  have cf0: "isCrossfade (transitionType ?s0)" by (simp add: isCrossfade_def)
  have nav: "successfulNavigation (GoToSlide (Num (5 / 2))) ?s0" by simp
  have none: "slideAt ?s0 (Num (5 / 2)) = None" by (simp add: slideAt_def)
  have g: "?s1 = updateSlideVisibility (?s0\<lparr>slideIndex := Num (5 / 2)\<rparr>)"
    by (simp add: goToSlide_def)
  note n = navigation_without_slide [OF t cf0 none]
  have d1: "dispatched ?s1 = dispatched ?s0 @ [SlideChanging (Num 1) (Num (5 / 2))]"
    using n(1) g by simp
  have cnt: "slideChangingCount ?s1 = 2" "slideChangedCount ?s1 = 0"
    using d1 z by (simp_all add: slideChangingCount_def slideChangedCount_def)
  have idle: "run ?bs ?s1 = ?s1"
    using n(2,3) g by (intro run_callbacks_idle) simp_all
  have "slideChangedCount (run ?bs ?s1) = 0" unfolding idle by (rule cnt(2))
  then show ?thesis using nav cnt by simp
qed

text \<open>
  Claim C1 as stated fails: on three crossfading slides, two successful \<open>nextSlide\<close>
  calls in a row, followed by the timeouts and opacity \<open>transitionend\<close> events of both
  transitions, dispatch two slide-changing notifications and a single slide-changed one.
  It also fails for a target that no slide bears: \<open>goToSlide(2.5)\<close> passes the guard
  and dispatches its slide-changing notification, but no transition starts, and no
  slide-changed notification follows whatever the browser delivers.
\<close>

theorem superseded_navigation_notifies_nothing:
  "slideChangingCount (VVJSSlideshow crossfadeContainer) = 1 \<and>
   slideChangedCount (VVJSSlideshow crossfadeContainer) = 0 \<and>
   slideChangingCount
     (run [NextSlide, NextSlide, TimeoutFires 3, TransitionendFires 1 ''opacity'' (Some 1),
           TimeoutFires 4, TransitionendFires 2 ''opacity'' (Some 2)]
        (VVJSSlideshow crossfadeContainer)) = 3 \<and>
   slideChangedCount
     (run [NextSlide, NextSlide, TimeoutFires 3, TransitionendFires 1 ''opacity'' (Some 1),
           TimeoutFires 4, TransitionendFires 2 ''opacity'' (Some 2)]
        (VVJSSlideshow crossfadeContainer)) = 1 \<and>
   successfulNavigation (GoToSlide (Num (5 / 2))) (VVJSSlideshow crossfadeContainer) \<and>
   slideChangingCount (run [GoToSlide (Num (5 / 2))] (VVJSSlideshow crossfadeContainer)) = 2 \<and>
   slideChangedCount
     (run [GoToSlide (Num (5 / 2)), TimeoutFires 3, TransitionendFires 1 ''opacity'' (Some 1),
           TransitionendFires 2 ''opacity'' (Some 2)]
        (VVJSSlideshow crossfadeContainer)) = 0"
  using superseded_navigation_counts fractional_navigation_counts
  by (simp del: run_Cons run_Nil)

lemma SlideshowCore_dataset [simp]: "dataset_transition (SlideshowCore c) = data_transition c"
  by (simp add: SlideshowCore_def Let_def)

lemma VVJSSlideshow_transitionType:
  "transitionType (VVJSSlideshow c) =
     (if 1 \<le> slides c \<and> prefersReducedMotion c then ''instant''
      else transitionOrInstant (data_transition c))"
  by (simp add: VVJSSlideshow_def initializeDeepLinking_def SlideshowEvents_def setVisibility_def
        applyReducedMotion_def SlideshowTransitions_def handleReducedMotion_def Let_def
        split: option.splits)

text \<open>
  With the instant type the core dispatches slide-changed itself and, through its own
  listener for the completion that \<open>transitionInstant\<close> signals at once, a second time.
\<close>

lemma instant_navigation_notifies_twice:
  assumes "attached s" and "transitionType s = ''instant''" and "successfulNavigation a s"
    and "integralAction a"
  shows "slideChangedCount (step a s) = slideChangedCount s + 2"
proof -
  obtain n where n: "1 \<le> n" "n \<le> int (totalSlides s)"
    "step a s = updateSlideVisibility (s\<lparr>slideIndex := Num (of_int n)\<rparr>)"
    using successful_navigation_target [of s a] assms by (auto simp add: attached_def)
  have "transitionsBound s" "transitionOrInstant (dataset_transition s) = ''instant''"
    using assms(1,2) by (simp_all add: attached_def wired_def)
  moreover have "slideAt (s\<lparr>slideIndex := Num (of_int n)\<rparr>) (Num (of_int n)) \<noteq> None"
    using n(1,2) by (simp add: slideAt_of_int)
  ultimately show ?thesis
    using n(3) assms(2)
    by (simp add: dispatched_updateSlideVisibility slideChangedCount_def)
qed

lemma instant_nextSlide_notifies_twice:
  "slideChangedCount (nextSlide (VVJSSlideshow (plainContainer 3))) =
     slideChangedCount (VVJSSlideshow (plainContainer 3)) + 2"
proof -
  have "attached (VVJSSlideshow (plainContainer 3))" by (simp add: attached_VVJSSlideshow)
  moreover have "transitionType (VVJSSlideshow (plainContainer 3)) = ''instant''"
    by (simp add: VVJSSlideshow_transitionType transitionOrInstant_def)
  ultimately show ?thesis
    using instant_navigation_notifies_twice [of "VVJSSlideshow (plainContainer 3)" NextSlide] by simp
qed

text \<open>
  Claim C10, as amended. In any state an attached slideshow with at least one slide can
  reach and in which the current index is within \<open>[1, totalSlides]\<close>, \<open>goToSlide\<close>
  with the current index is not a no-op: it runs \<open>updateSlideVisibility\<close> like every
  successful navigation, so it first dispatches a slide-changing notification whose
  \<open>fromIndex\<close> and \<open>toIndex\<close> are both the current index, then the notifications of
  the transition type when the index names a slide (for a crossfade, a transition towards
  the current slide is put in flight), while the index keeps its value. An integer index
  within the bounds names a slide.
\<close>

theorem goToSlide_current_is_navigation:
  assumes "1 \<le> slides c" and "s = run as (VVJSSlideshow c)" and "slideIndex s = Num n"
    and "indexInRange s"
  shows "goToSlide (Num n) s = adjustHeight (updateSlideVisibility s) \<and>
         slideIndex (goToSlide (Num n) s) = Num n \<and>
         dispatched (goToSlide (Num n) s) =
           dispatched s @ [SlideChanging (Num n) (Num n)] @
           (if isCrossfade (transitionType s) \<or> slideAt s (Num n) = None then []
            else [TransitionComplete (Num n) (transitionType s), SlideChanged (Num n) (totalSlides s)]) @
           (if transitionType s = ''instant'' then [SlideChanged (Num n) (totalSlides s)] else []) \<and>
         (\<forall>el. isCrossfade (transitionType s) \<and> slideAt s (Num n) = Some el \<longrightarrow>
            activeTransition (goToSlide (Num n) s) =
              Some \<lparr>element = el, listener = Suc (handles s), timeout = Suc (handles s)\<rparr>) \<and>
         (isInteger (Num n) \<longrightarrow> slideAt s (Num n) = Some (nat (\<lfloor>n\<rfloor> - 1)))"
proof -
  have tr: "tracked s" using assms(1,2) by (simp add: tracked_run tracked_VVJSSlideshow)
  have wi: "wired s" using assms(1,2) by (simp add: wired_run wired_VVJSSlideshow)
  have oj: "oneJob s" using assms(2) by (simp add: oneJob_run oneJob_VVJSSlideshow)
  have rng: "1 \<le> n" "n \<le> real (totalSlides s)"
    using assms(3,4) by (simp_all add: indexInRange_def)
  have cur: "currentSlideIndex s = Num n" using tr assms(3) by (simp add: tracked_def)
  have bound: "transitionsBound s"
    and ty: "transitionOrInstant (dataset_transition s) = transitionType s"
    using wi by (simp_all add: wired_def)
  have same: "s\<lparr>slideIndex := Num n\<rparr> = s" using assms(3) by simp
  have go: "goToSlide (Num n) s = updateSlideVisibility s"
    using rng same by (simp add: goToSlide_def)
  have ev: "dispatched (goToSlide (Num n) s) =
           dispatched s @ [SlideChanging (Num n) (Num n)] @
           (if isCrossfade (transitionType s) \<or> slideAt s (Num n) = None then []
            else [TransitionComplete (Num n) (transitionType s), SlideChanged (Num n) (totalSlides s)]) @
           (if transitionType s = ''instant'' then [SlideChanged (Num n) (totalSlides s)] else [])"
    unfolding go using cur bound ty assms(3) by (simp add: dispatched_updateSlideVisibility)
  have job: "activeTransition (goToSlide (Num n) s) =
              Some \<lparr>element = el, listener = Suc (handles s), timeout = Suc (handles s)\<rparr>"
    if "isCrossfade (transitionType s)" "slideAt s (Num n) = Some el" for el
    using crossfade_navigation_at(2) [OF tr wi oj that] same go by simp
  have at: "slideAt s (Num n) = Some (nat (\<lfloor>n\<rfloor> - 1))" if "isInteger (Num n)"
    using that rng by (simp add: slideAt_def)
  show ?thesis using go ev job at assms(3) by simp
qed

theorem goToSlide_current_is_navigation_witness:
  "1 \<le> slides (plainContainer 3) \<and>
   slideIndex (run [NextSlide] (VVJSSlideshow (plainContainer 3))) = Num 2 \<and>
   indexInRange (run [NextSlide] (VVJSSlideshow (plainContainer 3))) \<and>
   slideIndex (goToSlide (Num 2) (run [NextSlide] (VVJSSlideshow (plainContainer 3)))) = Num 2 \<and>
   dispatched (goToSlide (Num 2) (run [NextSlide] (VVJSSlideshow (plainContainer 3)))) =
     dispatched (run [NextSlide] (VVJSSlideshow (plainContainer 3))) @
     [SlideChanging (Num 2) (Num 2), TransitionComplete (Num 2) ''instant'',
      SlideChanged (Num 2) 3, SlideChanged (Num 2) 3]"
proof -
  have a: "1 \<le> slides (plainContainer 3)" by simp
  have i: "slideIndex (run [NextSlide] (VVJSSlideshow (plainContainer 3))) = Num 2"
    by (simp add: nextSlide_looping_index js_trunc_def)
  have r: "indexInRange (run [NextSlide] (VVJSSlideshow (plainContainer 3)))"
    using i by (simp add: indexInRange_def del: run_Cons run_Nil)
  have t: "transitionType (run [NextSlide] (VVJSSlideshow (plainContainer 3))) = ''instant''"
    by (simp add: VVJSSlideshow_transitionType transitionOrInstant_def)
  have at: "slideAt (run [NextSlide] (VVJSSlideshow (plainContainer 3))) (Num 2) = Some 1"
    by (simp add: slideAt_def del: run_Cons run_Nil)
  note inst = goToSlide_current_is_navigation [OF a refl i r]
  have idx: "slideIndex (goToSlide (Num 2) (run [NextSlide] (VVJSSlideshow (plainContainer 3)))) = Num 2"
    using inst [THEN conjunct2, THEN conjunct1] .
  have ev: "dispatched (goToSlide (Num 2) (run [NextSlide] (VVJSSlideshow (plainContainer 3)))) =
     dispatched (run [NextSlide] (VVJSSlideshow (plainContainer 3))) @
     [SlideChanging (Num 2) (Num 2), TransitionComplete (Num 2) ''instant'',
      SlideChanged (Num 2) 3, SlideChanged (Num 2) 3]"
    using inst [THEN conjunct2, THEN conjunct2, THEN conjunct1] t at
    by (simp del: run_Cons run_Nil)
  show ?thesis by (intro conjI a i r idx ev)
qed

text \<open>
  Claim C10 as stated fails where the current index has left its bounds: on three plain
  slides, \<open>goToSlide(2.5)\<close> is accepted and \<open>nextSlide\<close> then makes the index
  \<open>3.5\<close>; \<open>goToSlide(3.5)\<close>, the current index, is refused by the guard and changes
  nothing, so no slide-changing notification is dispatched.
\<close>

theorem goToSlide_current_beyond_range_is_noop:
  "slideIndex (run [GoToSlide (Num (5 / 2)), NextSlide] (VVJSSlideshow (plainContainer 3))) = Num (7 / 2) \<and>
   goToSlide (Num (7 / 2)) (run [GoToSlide (Num (5 / 2)), NextSlide] (VVJSSlideshow (plainContainer 3))) =
     run [GoToSlide (Num (5 / 2)), NextSlide] (VVJSSlideshow (plainContainer 3)) \<and>
   slideChangingCount
     (goToSlide (Num (7 / 2)) (run [GoToSlide (Num (5 / 2)), NextSlide] (VVJSSlideshow (plainContainer 3)))) =
     slideChangingCount (run [GoToSlide (Num (5 / 2)), NextSlide] (VVJSSlideshow (plainContainer 3)))"
proof -
  let ?s = "run [GoToSlide (Num (5 / 2)), NextSlide] (VVJSSlideshow (plainContainer 3))"
  have "totalSlides ?s = 3" by (simp del: run_Cons run_Nil)
  then have "goToSlide (Num (7 / 2)) ?s = ?s"
    by (simp add: goToSlide_def del: run_Cons run_Nil)
  then show ?thesis using fractional_run_index by (simp del: run_Cons run_Nil)
qed

section \<open>An interval of zero\<close>

lemma parseInt_zero: "parseInt (Some ''0'') = Some 0"
  by (simp add: parseInt_def whiteSpace_def digitValue_def roundToDouble_def)

lemma slideTime_never_zero: "slideTime (SlideshowCore c) \<noteq> 0"
  by (simp add: js_or_def split: option.splits)

lemma startAutoSlide_needs_positive_time:
  "slideTime s \<le> 0 \<Longrightarrow> autoSlideIntervalId (startAutoSlide s) = None \<and>
     intervals (startAutoSlide s) = intervals (stopAutoSlide s)"
  by (simp add: startAutoSlide_def Let_def)

lemma zeroTimeContainer_attached:
  "slideTime (VVJSSlideshow zeroTimeContainer) = 5000"
  "autoSlideIntervalId (VVJSSlideshow zeroTimeContainer) = Some 2"
  "intervals (VVJSSlideshow zeroTimeContainer) = [(2, 5000)]"
  "slideIndex (VVJSSlideshow zeroTimeContainer) = Num 1"
  "loopingEnabled (VVJSSlideshow zeroTimeContainer)"
  "isPaused (VVJSSlideshow zeroTimeContainer) = False"
  "isVisible (VVJSSlideshow zeroTimeContainer) = True"
  by (simp_all add: zeroTimeContainer_def attach_defs updateAccessibilityAttributes_def browser_defs
      whiteSpace_def digitValue_def roundToDouble_def Let_def)

text \<open>
  Claim C2 does not hold of the code. \<open>startAutoSlide\<close> does guard on a positive
  interval (\<open>startAutoSlide_needs_positive_time\<close>), but the constructor reads the
  interval as \<open>parseInt(data-time, 10) || 5000\<close>, and 0 is falsy: the stored interval
  is never 0 (\<open>slideTime_never_zero\<close>). With \<open>data-time="0"\<close> on a visible,
  unpaused container of three slides, attaching arms a 5000 ms interval, and its first
  tick advances from slide 1 to slide 2.
\<close>

theorem zero_interval_still_autoplays:
  "data_time zeroTimeContainer = Some ''0'' \<and>
   slideTime (VVJSSlideshow zeroTimeContainer) = 5000 \<and>
   autoSlideIntervalId (VVJSSlideshow zeroTimeContainer) = Some 2 \<and>
   intervals (VVJSSlideshow zeroTimeContainer) = [(2, 5000)] \<and>
   slideIndex (VVJSSlideshow zeroTimeContainer) = Num 1 \<and>
   slideIndex (intervalFires 2 (VVJSSlideshow zeroTimeContainer)) = Num 2"
proof -
  have "totalSlides (VVJSSlideshow zeroTimeContainer) = 3" by (simp add: zeroTimeContainer_def)
  then have "slideIndex (intervalFires 2 (VVJSSlideshow zeroTimeContainer)) = Num 2"
    by (simp add: intervalFires_def nextSlide_looping_index zeroTimeContainer_attached js_trunc_def
        del: VVJSSlideshow_fields)
  moreover have "data_time zeroTimeContainer = Some ''0''" by (simp add: zeroTimeContainer_def)
  ultimately show ?thesis
    by (intro conjI zeroTimeContainer_attached(1,2,3,4))
qed

section \<open>Swipe gestures\<close>

lemma slideIndex_touch [simp]:
  "slideIndex (nextSlide (s\<lparr>touchStartX := a, touchStartY := b, isDragging := d, touchEndX := e, touchEndY := f\<rparr>)) =
     slideIndex (nextSlide s)"
  "slideIndex (prevSlide (s\<lparr>touchStartX := a, touchStartY := b, isDragging := d, touchEndX := e, touchEndY := f\<rparr>)) =
     slideIndex (prevSlide s)"
  by (simp_all add: nextSlide_def prevSlide_def)

lemma resetTouchState_core [simp]:
  "slideIndex (resetTouchState s) = slideIndex s"
  "autoSlideIntervalId (resetTouchState s) = autoSlideIntervalId s"
  "dispatched (resetTouchState s) = dispatched s"
  by (simp_all add: resetTouchState_def)




text \<open>The drag threshold is 40 after construction and at least 10 after any
  \<open>setSwipeThreshold\<close>, so it is never negative.\<close>

lemma dragThreshold_set:
  "dragThreshold (SlideshowEvents c s) = 40"
  "10 \<le> dragThreshold (setSwipeThreshold t s)"
  "dragThreshold (setSwipeThreshold t s) \<le> 200"
  by (simp_all add: SlideshowEvents_def setSwipeThreshold_def)

end
